theory Spec2Isabelle
  imports Complex_Main "HOL-Library.Multiset"
begin

section \<open>Data model\<close>

text \<open>
  A shallow embedding of the particle engine: the QuadTree spatial index, the Particle
  class (constructor and per-frame update), the attraction and hover interaction passes
  and the Engine (population sizing, click handling and the render loop).

  JavaScript numbers are modelled as \<^typ>\<open>real\<close>: the model covers the finite values
  and computes every arithmetic expression of the source exactly. Booleans, string
  enumerations and optional fields become \<^typ>\<open>bool\<close>, datatypes and
  \<^typ>\<open>'a option\<close>. Objects that the source shares by reference (the particles, held
  both by the engine's array and by the nodes of the index) live in an explicit store,
  a function from references to particle records; arrays of particles are lists of
  references, and \<open>p1 === p2\<close> is equality of references.

  The canvas context, colours, images and the pre-rendered blur sprites only feed the
  drawing calls; they hold no state that the simulation reads back and are left out.
\<close>

subsection \<open>Configuration (\<open>IParticleParams\<close>, all fields resolved)\<close>

datatype TParticleShape = Circle | Edge | Triangle | Polygon | Star | Image

datatype TParticleMoveDirection =
    DirNone | DirTop | DirTopLeft | DirRight | DirTopRight | DirBottomRight
  | DirBottom | DirBottomLeft | DirLeft | DirAngle real

datatype OutMode = Out | Bounce

datatype RotateDirection = Clockwise | CounterClockwise

datatype HoverMode = Grab | Bubble | Repulse

datatype ClickMode = Push | Remove

record Density =
  density_enable :: bool
  density_area :: real

record NumberCfg =
  number_value :: real
  number_density :: Density

record ShapeCfg =
  shape_type :: TParticleShape
  shape_images :: "string list option"

record OpacityAnim =
  opacity_anim_enable :: bool
  opacity_anim_speed :: real
  opacity_min :: real
  opacity_anim_sync :: bool

record OpacityCfg =
  opacity_value :: real
  opacity_random :: bool
  opacity_anim :: OpacityAnim

record SizeAnim =
  size_anim_enable :: bool
  size_anim_speed :: real
  size_min :: real
  size_anim_sync :: bool

record SizeCfg =
  size_value :: real
  size_random :: bool
  size_anim :: SizeAnim

record RotateAnim =
  rotate_anim_enable :: bool
  rotate_anim_speed :: real
  rotate_anim_direction :: RotateDirection
  rotate_anim_sync :: bool

record RotateCfg =
  rotate_enable :: bool
  rotate_value :: real
  rotate_random :: bool
  rotate_anim :: RotateAnim

record Randomized =
  randomized_enable :: bool
  randomized_min :: "real option"
  randomized_max :: "real option"

record Direction =
  direction_to :: TParticleMoveDirection
  direction_random :: bool

record Attract =
  attract_enable :: bool
  rotateX :: real
  rotateY :: real

record MoveCfg =
  move_enable :: bool
  move_speed :: real
  move_straight :: bool
  out_mode :: OutMode
  move_randomized :: Randomized
  move_direction :: Direction
  move_attract :: Attract

record SwayCfg =
  sway_enable :: bool
  sway_amplitude :: real
  sway_frequency :: real
  sway_random :: bool

record HoverEvent =
  onhover_enable :: bool
  onhover_mode :: HoverMode

record ClickEvent =
  onclick_enable :: bool
  onclick_mode :: ClickMode

record Events =
  onhover :: HoverEvent
  onclick :: ClickEvent

record BubbleCfg =
  bubble_distance :: real
  bubble_size :: real
  bubble_duration :: real
  bubble_opacity :: "real option"

record RepulseCfg =
  repulse_distance :: real
  repulse_duration :: real

record Modes =
  grab_distance :: real
  modes_bubble :: BubbleCfg
  modes_repulse :: RepulseCfg
  push_quantity :: real
  remove_quantity :: real

record Interactivity =
  events :: Events
  modes :: Modes

record Config =
  cfg_number :: NumberCfg
  cfg_shape :: ShapeCfg
  cfg_opacity :: OpacityCfg
  cfg_size :: SizeCfg
  cfg_rotate :: RotateCfg
  cfg_move :: MoveCfg
  cfg_sway :: SwayCfg
  cfg_interactivity :: Interactivity

subsection \<open>Canvas, pointer, particles and the store\<close>

record Canvas =
  canvas_width :: real
  canvas_height :: real

record Mouse =
  mouse_x :: real
  mouse_y :: real
  mouse_active :: bool

text \<open>
  The fields of class \<open>Particle\<close>. The source's \<open>x\<close> and \<open>y\<close> are \<open>pos_x\<close> and
  \<open>pos_y\<close> here. The shared configuration and canvas that every particle references
  are passed to the methods as arguments.
\<close>

record Particle =
  pos_x :: real
  pos_y :: real
  vx :: real
  vy :: real
  initialRadius :: real
  initialOpacity :: real
  radius :: real
  opacity :: real
  rotation :: real
  rotationRadians :: real
  opacityDirection :: real
  sizeDirection :: real
  swayPhase :: real

type_synonym ref = nat

type_synonym heap = "ref \<Rightarrow> Particle"

section \<open>The spatial index (\<open>utils/QuadTree.ts\<close>)\<close>

datatype Boundary = Boundary (b_x: real) (b_y: real) (b_w: real) (b_h: real)

text \<open>\<open>Boundary.contains(p)\<close>: the point test, edges inclusive.\<close>

definition contains :: "Boundary \<Rightarrow> Particle \<Rightarrow> bool" where
  "contains b p \<longleftrightarrow>
     pos_x p \<ge> b_x b \<and> pos_x p \<le> b_x b + b_w b \<and>
     pos_y p \<ge> b_y b \<and> pos_y p \<le> b_y b + b_h b"

text \<open>\<open>Boundary.intersects(range)\<close>, called on the receiver \<open>b\<close>.\<close>

definition intersects :: "Boundary \<Rightarrow> Boundary \<Rightarrow> bool" where
  "intersects b rng \<longleftrightarrow>
     \<not> (b_x rng > b_x b + b_w b \<or> b_x rng + b_w rng < b_x b \<or>
        b_y rng > b_y b + b_h b \<or> b_y rng + b_h rng < b_y b)"

text \<open>
  A node of class \<open>QuadTree\<close>. \<open>Undivided\<close> is a node with \<open>divided = false\<close>, whose
  four child fields are still undefined; \<open>Divided\<close> is a node with \<open>divided = true\<close>
  and its children in the order northwest, northeast, southwest, southeast.
\<close>

datatype QuadTree =
    Undivided (boundary: Boundary) (particles: "ref list")
  | Divided (boundary: Boundary) (particles: "ref list")
      (northwest: QuadTree) (northeast: QuadTree) (southwest: QuadTree) (southeast: QuadTree)

definition capacity :: nat where
  "capacity = 4"

text \<open>\<open>subdivide()\<close>: the four fresh children of a node with boundary \<open>b\<close>.\<close>

definition subdivide :: "Boundary \<Rightarrow> QuadTree \<times> QuadTree \<times> QuadTree \<times> QuadTree" where
  "subdivide b =
     (let x = b_x b; y = b_y b; hw = b_w b / 2; hh = b_h b / 2
      in (Undivided (Boundary x y hw hh) [],
          Undivided (Boundary (x + hw) y hw hh) [],
          Undivided (Boundary x (y + hh) hw hh) [],
          Undivided (Boundary (x + hw) (y + hh) hw hh) []))"

text \<open>The children after \<open>if (!this.divided) this.subdivide()\<close>.\<close>

fun quadrants :: "QuadTree \<Rightarrow> QuadTree \<times> QuadTree \<times> QuadTree \<times> QuadTree" where
  "quadrants (Undivided b ps) = subdivide b"
| "quadrants (Divided b ps nw ne sw se) = (nw, ne, sw, se)"

text \<open>\<open>this.particles.push(p)\<close> on a node.\<close>

fun push_particle :: "ref \<Rightarrow> QuadTree \<Rightarrow> QuadTree" where
  "push_particle p (Undivided b ps) = Undivided b (ps @ [p])"
| "push_particle p (Divided b ps nw ne sw se) = Divided b (ps @ [p]) nw ne sw se"

text \<open>
  The measure for the recursion of \<open>insert\<close>: the call descends into a child of a
  divided node, or into a fresh (empty) child of a full undivided node.
\<close>

fun depth_bound :: "QuadTree \<Rightarrow> nat" where
  "depth_bound (Undivided b ps) = (if length ps < capacity then 0 else 1)"
| "depth_bound (Divided b ps nw ne sw se) =
     2 + depth_bound nw + depth_bound ne + depth_bound sw + depth_bound se"

lemma depth_bound_quadrants:
  assumes "(nw, ne, sw, se) = quadrants t" and "\<not> length (particles t) < capacity"
  shows "depth_bound nw < depth_bound t" and "depth_bound ne < depth_bound t"
    and "depth_bound sw < depth_bound t" and "depth_bound se < depth_bound t"
  using assms by (cases t; simp add: subdivide_def Let_def capacity_def; fail)+

text \<open>
  \<open>QuadTree.insert(p)\<close>, returning the boolean and the node after the call. The
  source's \<open>||\<close> chain stops at the first child that accepts; a child that refused is
  kept as the call left it.
\<close>

function insert_qt :: "heap \<Rightarrow> ref \<Rightarrow> QuadTree \<Rightarrow> bool \<times> QuadTree" where
  "insert_qt h p t =
     (if \<not> contains (boundary t) (h p) then (False, t)
      else if length (particles t) < capacity then (True, push_particle p t)
      else (case quadrants t of (nw, ne, sw, se) \<Rightarrow>
        (let (ok1, nw1) = insert_qt h p nw in
         if ok1 then (True, Divided (boundary t) (particles t) nw1 ne sw se)
         else let (ok2, ne1) = insert_qt h p ne in
         if ok2 then (True, Divided (boundary t) (particles t) nw1 ne1 sw se)
         else let (ok3, sw1) = insert_qt h p sw in
         if ok3 then (True, Divided (boundary t) (particles t) nw1 ne1 sw1 se)
         else let (ok4, se1) = insert_qt h p se in
         (ok4, Divided (boundary t) (particles t) nw1 ne1 sw1 se1))))"
  by pat_completeness auto
termination
  apply (relation "measure (\<lambda>(h, p, t). depth_bound t)")
      apply (rule wf_measure)
     apply (simp only: in_measure prod.case, blast intro: depth_bound_quadrants(1))
    apply (simp only: in_measure prod.case, blast intro: depth_bound_quadrants(2))
   apply (simp only: in_measure prod.case, blast intro: depth_bound_quadrants(3))
  apply (simp only: in_measure prod.case, blast intro: depth_bound_quadrants(4))
  done

declare insert_qt.simps [simp del]

text \<open>
  \<open>QuadTree.query(range, found)\<close>: \<open>found\<close> is the accumulator array, which the
  recursive calls extend in place.
\<close>

fun query :: "heap \<Rightarrow> Boundary \<Rightarrow> QuadTree \<Rightarrow> ref list \<Rightarrow> ref list" where
  "query h rng (Undivided b ps) found =
     (if \<not> intersects b rng then found
      else found @ filter (\<lambda>p. contains rng (h p)) ps)"
| "query h rng (Divided b ps nw ne sw se) found =
     (if \<not> intersects b rng then found
      else let found0 = found @ filter (\<lambda>p. contains rng (h p)) ps;
               found1 = query h rng nw found0;
               found2 = query h rng ne found1;
               found3 = query h rng sw found2
           in query h rng se found3)"

text \<open>
  Inserting an array of particles one after the other into a node, as the render loop
  does (\<open>for (const p of this.particles) qtree.insert(p)\<close>); \<open>insert_list\<close> also
  returns the particles whose \<open>insert\<close> call returned true.
\<close>

fun insert_list :: "heap \<Rightarrow> ref list \<Rightarrow> QuadTree \<Rightarrow> ref list \<times> QuadTree" where
  "insert_list h [] t = ([], t)"
| "insert_list h (p # ps) t =
     (let (ok, t1) = insert_qt h p t;
          (acc, t2) = insert_list h ps t1
      in (if ok then p # acc else acc, t2))"

definition build :: "heap \<Rightarrow> ref list \<Rightarrow> Boundary \<Rightarrow> QuadTree" where
  "build h ps b = fold (\<lambda>p t. snd (insert_qt h p t)) ps (Undivided b [])"

text \<open>Notions used to state and prove the properties of the index.\<close>

text \<open>All particles stored in a subtree, in the order in which \<open>query\<close> visits them.\<close>

fun refs :: "QuadTree \<Rightarrow> ref list" where
  "refs (Undivided b ps) = ps"
| "refs (Divided b ps nw ne sw se) = ps @ refs nw @ refs ne @ refs sw @ refs se"

text \<open>Every particle stored in a subtree lies inside the boundary of the subtree's root.\<close>

fun stored_inside :: "heap \<Rightarrow> QuadTree \<Rightarrow> bool" where
  "stored_inside h (Undivided b ps) = list_all (\<lambda>p. contains b (h p)) ps"
| "stored_inside h (Divided b ps nw ne sw se) =
     (list_all (\<lambda>p. contains b (h p)) (refs (Divided b ps nw ne sw se)) \<and>
      stored_inside h nw \<and> stored_inside h ne \<and> stored_inside h sw \<and> stored_inside h se)"

text \<open>The children of every divided node have the boundaries that \<open>subdivide\<close> gave them.\<close>

fun tiled :: "QuadTree \<Rightarrow> bool" where
  "tiled (Undivided b ps) = True"
| "tiled (Divided b ps nw ne sw se) =
     ((case subdivide b of (nw0, ne0, sw0, se0) \<Rightarrow>
         boundary nw = boundary nw0 \<and> boundary ne = boundary ne0 \<and>
         boundary sw = boundary sw0 \<and> boundary se = boundary se0) \<and>
      tiled nw \<and> tiled ne \<and> tiled sw \<and> tiled se)"


text \<open>A range that covers a whole boundary.\<close>

definition covers :: "Boundary \<Rightarrow> Boundary \<Rightarrow> bool" where
  "covers rng b \<longleftrightarrow>
     b_x rng \<le> b_x b \<and> b_x b + b_w b \<le> b_x rng + b_w rng \<and>
     b_y rng \<le> b_y b \<and> b_y b + b_h b \<le> b_y rng + b_h rng"

section \<open>Boundary policy (\<open>handleOutMode\<close> of \<open>utils/physics.ts\<close>)\<close>

text \<open>
  \<open>handleOutMode(particle, canvas)\<close>. The horizontal and the vertical test are two
  separate \<open>if / else if\<close> statements; the radius is read once, before both.
\<close>

definition handleOutMode :: "Config \<Rightarrow> Canvas \<Rightarrow> Particle \<Rightarrow> Particle" where
  "handleOutMode cfg cv particle =
     (let width = canvas_width cv; height = canvas_height cv;
          r = radius particle;
          wrapWidth = width + r * 2;
          wrapHeight = height + r * 2
      in if out_mode (cfg_move cfg) = Bounce then
           (let p1 =
                  (if pos_x particle - r \<le> 0 \<and> vx particle < 0 then
                     (let overlap = - (pos_x particle - r)
                      in particle\<lparr>vx := vx particle * (- 1), pos_x := r + overlap\<rparr>)
                   else if pos_x particle + r \<ge> width \<and> vx particle > 0 then
                     (let overlap = pos_x particle + r - width
                      in particle\<lparr>vx := vx particle * (- 1), pos_x := width - r - overlap\<rparr>)
                   else particle)
            in if pos_y p1 - r \<le> 0 \<and> vy p1 < 0 then
                 (let overlap = - (pos_y p1 - r)
                  in p1\<lparr>vy := vy p1 * (- 1), pos_y := r + overlap\<rparr>)
               else if pos_y p1 + r \<ge> height \<and> vy p1 > 0 then
                 (let overlap = pos_y p1 + r - height
                  in p1\<lparr>vy := vy p1 * (- 1), pos_y := height - r - overlap\<rparr>)
               else p1)
         else
           (let p1 =
                  (if pos_x particle + r < 0 then particle\<lparr>pos_x := pos_x particle + wrapWidth\<rparr>
                   else if pos_x particle - r > width then
                     particle\<lparr>pos_x := pos_x particle - wrapWidth\<rparr>
                   else particle)
            in if pos_y p1 + r < 0 then p1\<lparr>pos_y := pos_y p1 + wrapHeight\<rparr>
               else if pos_y p1 - r > height then p1\<lparr>pos_y := pos_y p1 - wrapHeight\<rparr>
               else p1))"

section \<open>The particle (\<open>classes/Particle.ts\<close>)\<close>

subsection \<open>Animation\<close>

definition handleSway :: "Config \<Rightarrow> real \<Rightarrow> Particle \<Rightarrow> Particle" where
  "handleSway cfg delta p =
     (if \<not> sway_enable (cfg_sway cfg) then p
      else let p1 = p\<lparr>swayPhase := swayPhase p + sway_frequency (cfg_sway cfg) * delta\<rparr>
           in p1\<lparr>pos_x := pos_x p1
                 + cos (swayPhase p1) * (sway_amplitude (cfg_sway cfg) * 0.1) * delta\<rparr>)"

definition handleOpacityAnimation :: "Config \<Rightarrow> real \<Rightarrow> Particle \<Rightarrow> Particle" where
  "handleOpacityAnimation cfg delta p =
     (let anim = opacity_anim (cfg_opacity cfg)
      in if \<not> opacity_anim_enable anim then p
         else let p1 = p\<lparr>opacity := opacity p
                          + (opacity_anim_speed anim / 1000) * opacityDirection p * delta\<rparr>;
                  p2 = (if opacity p1 \<ge> opacity_value (cfg_opacity cfg) then
                          p1\<lparr>opacityDirection := - 1, opacity := opacity_value (cfg_opacity cfg)\<rparr>
                        else if opacity p1 \<le> opacity_min anim then
                          p1\<lparr>opacityDirection := 1, opacity := opacity_min anim\<rparr>
                        else p1);
                  p3 = (if opacity p2 < 0 then p2\<lparr>opacity := 0\<rparr> else p2);
                  p4 = (if opacity p3 > 1 then p3\<lparr>opacity := 1\<rparr> else p3)
              in p4\<lparr>initialOpacity := opacity p4\<rparr>)"

definition handleSizeAnimation :: "Config \<Rightarrow> real \<Rightarrow> Particle \<Rightarrow> Particle" where
  "handleSizeAnimation cfg delta p =
     (let anim = size_anim (cfg_size cfg)
      in if \<not> size_anim_enable anim then p
         else let p1 = p\<lparr>radius := radius p
                          + (size_anim_speed anim / 100) * sizeDirection p * delta\<rparr>;
                  p2 = (if radius p1 \<ge> size_value (cfg_size cfg) then
                          p1\<lparr>sizeDirection := - 1, radius := size_value (cfg_size cfg)\<rparr>
                        else if radius p1 \<le> size_min anim then
                          p1\<lparr>sizeDirection := 1, radius := size_min anim\<rparr>
                        else p1);
                  p3 = (if radius p2 < 0 then p2\<lparr>radius := 0\<rparr> else p2);
                  p4 = (if radius p3 > size_value (cfg_size cfg)
                        then p3\<lparr>radius := size_value (cfg_size cfg)\<rparr> else p3)
              in p4\<lparr>initialRadius := radius p4\<rparr>)"

definition handleRotationAnimation :: "Config \<Rightarrow> real \<Rightarrow> Particle \<Rightarrow> Particle" where
  "handleRotationAnimation cfg delta p =
     (let rotateCfg = cfg_rotate cfg
      in if \<not> rotate_enable rotateCfg \<or> \<not> rotate_anim_enable (rotate_anim rotateCfg) then p
         else let speed = rotate_anim_speed (rotate_anim rotateCfg);
                  direction = rotate_anim_direction (rotate_anim rotateCfg);
                  p1 = p\<lparr>rotation := rotation p
                          + speed * (if direction = Clockwise then 1 else - 1) * delta\<rparr>;
                  p2 = (if rotation p1 > 360 then p1\<lparr>rotation := rotation p1 - 360\<rparr>
                        else if rotation p1 < 0 then p1\<lparr>rotation := rotation p1 + 360\<rparr>
                        else p1)
              in p2\<lparr>rotationRadians := rotation p2 * pi / 180\<rparr>)"

text \<open>\<open>Particle.update(delta)\<close>.\<close>

definition update :: "Config \<Rightarrow> Canvas \<Rightarrow> real \<Rightarrow> Particle \<Rightarrow> Particle" where
  "update cfg cv delta p =
     (let p1 = p\<lparr>pos_x := pos_x p + vx p * delta\<rparr>;
          p2 = p1\<lparr>pos_y := pos_y p1 + vy p1 * delta\<rparr>;
          p3 = handleOutMode cfg cv p2;
          p4 = (if sway_enable (cfg_sway cfg) then handleSway cfg delta p3 else p3);
          p5 = (if opacity_anim_enable (opacity_anim (cfg_opacity cfg))
                then handleOpacityAnimation cfg delta p4 else p4);
          p6 = (if size_anim_enable (size_anim (cfg_size cfg))
                then handleSizeAnimation cfg delta p5 else p5)
      in if rotate_enable (cfg_rotate cfg) \<and> rotate_anim_enable (rotate_anim (cfg_rotate cfg))
         then handleRotationAnimation cfg delta p6 else p6)"

subsection \<open>Construction\<close>

text \<open>
  \<open>DIRECTION_MAP[direction.to] || { x: 1, y: 1 }\<close>: a numeric direction is no key of
  the map and takes the default.
\<close>

fun DIRECTION_MAP :: "TParticleMoveDirection \<Rightarrow> real \<times> real" where
  "DIRECTION_MAP DirTop = (0, - 1)"
| "DIRECTION_MAP DirTopLeft = (- 1, - 1)"
| "DIRECTION_MAP DirTopRight = (1, - 1)"
| "DIRECTION_MAP DirRight = (1, 0)"
| "DIRECTION_MAP DirBottom = (0, 1)"
| "DIRECTION_MAP DirBottomLeft = (- 1, 1)"
| "DIRECTION_MAP DirBottomRight = (1, 1)"
| "DIRECTION_MAP DirLeft = (- 1, 0)"
| "DIRECTION_MAP DirNone = (1, 1)"
| "DIRECTION_MAP (DirAngle a) = (1, 1)"

text \<open>
  The results of the successive calls of \<open>Math.random()\<close> are an input of the model: a
  sequence \<open>rs\<close> and the number \<open>k\<close> of values already drawn. Each function below
  returns the number drawn after it.
\<close>

type_synonym random_source = "nat \<Rightarrow> real"

text \<open>\<open>initVelocity()\<close>: the pair \<open>(vx, vy)\<close>.\<close>

definition initVelocity :: "Config \<Rightarrow> random_source \<Rightarrow> nat \<Rightarrow> (real \<times> real) \<times> nat" where
  "initVelocity cfg rs k =
     (if \<not> move_enable (cfg_move cfg) then ((0, 0), k)
      else let speed = move_speed (cfg_move cfg);
               direction = move_direction (cfg_move cfg);
               randomized = move_randomized (cfg_move cfg);
               multiplier = DIRECTION_MAP (direction_to direction);
               (dirX, k1) = (if direction_random direction then (rs k - 0.5, Suc k)
                             else (fst multiplier, k));
               (dirY, k2) = (if direction_random direction then (rs k1 - 0.5, Suc k1)
                             else (snd multiplier, k1));
               randomizedSpeed =
                 max (min (rs k2 * speed)
                        (case randomized_max randomized of Some m \<Rightarrow> m | None \<Rightarrow> 5))
                     (case randomized_min randomized of Some m \<Rightarrow> m | None \<Rightarrow> 1);
               varSpeed = (if randomized_enable randomized then randomizedSpeed else speed)
           in ((dirX * varSpeed, dirY * varSpeed), Suc k2))"

text \<open>\<open>initImage()\<close> draws once when the shape is an image with a non-empty list.\<close>

definition initImage :: "Config \<Rightarrow> nat \<Rightarrow> nat" where
  "initImage cfg k =
     (if shape_type (cfg_shape cfg) = Image \<and>
         (case shape_images (cfg_shape cfg) of Some imgs \<Rightarrow> imgs \<noteq> [] | None \<Rightarrow> False)
      then Suc k else k)"

text \<open>\<open>new Particle(canvas, p, position)\<close>.\<close>

definition new_Particle ::
  "Canvas \<Rightarrow> Config \<Rightarrow> (real \<times> real) option \<Rightarrow> random_source \<Rightarrow> nat \<Rightarrow> Particle \<times> nat" where
  "new_Particle cv cfg position rs k =
     (let spawnBuffer = size_value (cfg_size cfg) * 2;
          (x, k1) = (case position of
                       Some pos \<Rightarrow> (fst pos, k)
                     | None \<Rightarrow> (rs k * (canvas_width cv + spawnBuffer * 2) - spawnBuffer, Suc k));
          (y, k2) = (case position of
                       Some pos \<Rightarrow> (snd pos, k1)
                     | None \<Rightarrow> (rs k1 * (canvas_height cv + spawnBuffer * 2) - spawnBuffer, Suc k1));
          opacityCfg = cfg_opacity cfg;
          oAnim = opacity_anim opacityCfg;
          (opacity0, opacityDirection0, k3) =
            (if opacity_anim_enable oAnim \<and> \<not> opacity_anim_sync oAnim then
               (rs k2 * (opacity_value opacityCfg - opacity_min oAnim) + opacity_min oAnim,
                if rs (Suc k2) > 0.5 then 1 else - 1, Suc (Suc k2))
             else if opacity_random opacityCfg then (rs k2 * opacity_value opacityCfg, 1, Suc k2)
             else (1 * opacity_value opacityCfg, 1, k2));
          sizeCfg = cfg_size cfg;
          sAnim = size_anim sizeCfg;
          (radius0, sizeDirection0, k4) =
            (if size_anim_enable sAnim \<and> \<not> size_anim_sync sAnim then
               (rs k3 * (size_value sizeCfg - size_min sAnim) + size_min sAnim,
                if rs (Suc k3) > 0.5 then 1 else - 1, Suc (Suc k3))
             else if size_random sizeCfg then (rs k3 * size_value sizeCfg, 1, Suc k3)
             else (1 * size_value sizeCfg, 1, k3));
          rotateCfg = cfg_rotate cfg;
          (rotation0, k5) =
            (if rotate_enable rotateCfg then
               (if (rotate_anim_enable (rotate_anim rotateCfg)
                      \<and> \<not> rotate_anim_sync (rotate_anim rotateCfg))
                   \<or> rotate_random rotateCfg
                then (rs k4 * 360, Suc k4) else (rotate_value rotateCfg, k4))
             else (0, k4));
          rotationRadians0 = (if rotate_enable rotateCfg then rotation0 * pi / 180 else 0);
          (swayPhase0, k6) =
            (if sway_enable (cfg_sway cfg) \<and> sway_random (cfg_sway cfg)
             then (rs k5 * pi * 2, Suc k5) else (0, k5));
          ((vx0, vy0), k7) = initVelocity cfg rs k6;
          k8 = initImage cfg k7
      in (\<lparr>pos_x = x, pos_y = y, vx = vx0, vy = vy0,
           initialRadius = radius0, initialOpacity = opacity0,
           radius = radius0, opacity = opacity0,
           rotation = rotation0, rotationRadians = rotationRadians0,
           opacityDirection = opacityDirection0, sizeDirection = sizeDirection0,
           swayPhase = swayPhase0\<rparr>, k8))"

section \<open>Attraction (\<open>applyAttraction\<close> of \<open>utils/physics.ts\<close>)\<close>

text \<open>
  The inner loop over the neighbours of \<open>p1\<close>: each \<open>p2\<close> other than \<open>p1\<close> itself
  changes the velocity of \<open>p1\<close> in the store.
\<close>

fun attract_neighbors :: "real \<Rightarrow> real \<Rightarrow> ref \<Rightarrow> ref list \<Rightarrow> heap \<Rightarrow> heap" where
  "attract_neighbors rotX rotY p1 [] h = h"
| "attract_neighbors rotX rotY p1 (p2 # neighbors) h =
     (if p1 = p2 then attract_neighbors rotX rotY p1 neighbors h
      else let dx = pos_x (h p1) - pos_x (h p2);
               dy = pos_y (h p1) - pos_y (h p2);
               h1 = h(p1 := (h p1)\<lparr>vx := vx (h p1) - dx / rotX\<rparr>);
               h2 = h1(p1 := (h1 p1)\<lparr>vy := vy (h1 p1) - dy / rotY\<rparr>)
           in attract_neighbors rotX rotY p1 neighbors h2)"

definition rangeRadius :: real where
  "rangeRadius = 200"

text \<open>The outer loop over the particle array; the query reads the store as it is then.\<close>

fun attract_particles :: "real \<Rightarrow> real \<Rightarrow> QuadTree \<Rightarrow> ref list \<Rightarrow> heap \<Rightarrow> heap" where
  "attract_particles rotX rotY qtree [] h = h"
| "attract_particles rotX rotY qtree (p1 # ps) h =
     (let rng = Boundary (pos_x (h p1) - rangeRadius) (pos_y (h p1) - rangeRadius)
                  (rangeRadius * 2) (rangeRadius * 2);
          neighbors = query h rng qtree []
      in attract_particles rotX rotY qtree ps (attract_neighbors rotX rotY p1 neighbors h))"

text \<open>
  \<open>applyAttraction(particles, config, qtree)\<close>. Where \<open>rotateX\<close> or \<open>rotateY\<close> is
  zero the source divides by zero and produces non-finite velocities, which the reals
  do not have; properties of the enabled pass are stated for non-zero factors.
\<close>

definition applyAttraction :: "ref list \<Rightarrow> Config \<Rightarrow> QuadTree \<Rightarrow> heap \<Rightarrow> heap" where
  "applyAttraction ps cfg qtree h =
     (let attract = move_attract (cfg_move cfg)
      in if \<not> attract_enable attract then h
         else let rotX = rotateX attract * 1000;
                  rotY = rotateY attract * 1000
              in attract_particles rotX rotY qtree ps h)"

section \<open>Hover interaction (\<open>applyInteractions\<close> of \<open>utils/interaction.ts\<close>)\<close>

text \<open>
  \<open>Math.atan2(y, x)\<close> on finite arguments; the differences passed to it are never a
  negative zero.
\<close>

definition atan2 :: "real \<Rightarrow> real \<Rightarrow> real" where
  "atan2 y x =
     (if x > 0 then arctan (y / x)
      else if x < 0 then (if y \<ge> 0 then arctan (y / x) + pi else arctan (y / x) - pi)
      else if y > 0 then pi / 2
      else if y < 0 then - (pi / 2)
      else 0)"

text \<open>The bubble reset: \<open>p.radius = p.initialRadius; p.opacity = p.initialOpacity\<close>.\<close>

definition reset_bubble :: "Particle \<Rightarrow> Particle" where
  "reset_bubble p = (p\<lparr>radius := initialRadius p\<rparr>)\<lparr>opacity := initialOpacity p\<rparr>"

fun reset_particles :: "ref list \<Rightarrow> heap \<Rightarrow> heap" where
  "reset_particles [] h = h"
| "reset_particles (p # ps) h = reset_particles ps (h(p := reset_bubble (h p)))"

text \<open>
  The body of the loop over the neighbours, for one particle. The grab branch only
  draws a line on the canvas and changes no particle.
\<close>

definition hover_effect :: "HoverMode \<Rightarrow> Modes \<Rightarrow> real \<Rightarrow> real \<Rightarrow> real \<Rightarrow> Particle \<Rightarrow> Particle" where
  "hover_effect mode ms mx my queryDist p =
     (let dx = pos_x p - mx;
          dy = pos_y p - my;
          distSq = dx * dx + dy * dy;
          limitSq = queryDist * queryDist
      in if distSq < limitSq then
           (let dist = sqrt distSq;
                bubbleDist = bubble_distance (modes_bubble ms);
                repulseDist = repulse_distance (modes_repulse ms);
                p1 = (if mode = Bubble then
                        (let ratio = 1 - dist / bubbleDist;
                             q = p\<lparr>radius := initialRadius p
                                    + (bubble_size (modes_bubble ms) - initialRadius p) * ratio\<rparr>
                         in case bubble_opacity (modes_bubble ms) of
                              Some bo \<Rightarrow>
                                (if bo \<noteq> 0
                                 then q\<lparr>opacity := initialOpacity q
                                          + (bo - initialOpacity q) * ratio\<rparr>
                                 else q)
                            | None \<Rightarrow> q)
                      else p)
            in if mode = Repulse then
                 (let force = (repulseDist - dist) / repulseDist;
                      angle = atan2 dy dx;
                      p2 = p1\<lparr>pos_x := pos_x p1 + cos angle * force * 10\<rparr>
                  in p2\<lparr>pos_y := pos_y p2 + sin angle * force * 10\<rparr>)
               else p1)
         else p)"

fun hover_neighbors ::
  "HoverMode \<Rightarrow> Modes \<Rightarrow> real \<Rightarrow> real \<Rightarrow> real \<Rightarrow> ref list \<Rightarrow> heap \<Rightarrow> heap" where
  "hover_neighbors mode ms mx my queryDist [] h = h"
| "hover_neighbors mode ms mx my queryDist (p # neighbors) h =
     hover_neighbors mode ms mx my queryDist neighbors
       (h(p := hover_effect mode ms mx my queryDist (h p)))"

text \<open>\<open>applyInteractions(qtree, mouse, config, ctx, allParticles)\<close>.\<close>

definition applyInteractions :: "QuadTree \<Rightarrow> Mouse \<Rightarrow> Config \<Rightarrow> ref list \<Rightarrow> heap \<Rightarrow> heap" where
  "applyInteractions qtree mouse cfg allParticles h =
     (let hover = onhover (events (cfg_interactivity cfg));
          mode = onhover_mode hover;
          ms = modes (cfg_interactivity cfg);
          h1 = (if mode = Bubble then reset_particles allParticles h else h)
      in if \<not> mouse_active mouse \<or> \<not> onhover_enable hover then h1
         else let mx = mouse_x mouse;
                  my = mouse_y mouse;
                  grabDist = grab_distance ms;
                  bubbleDist = bubble_distance (modes_bubble ms);
                  repulseDist = repulse_distance (modes_repulse ms);
                  queryDist = (case mode of Grab \<Rightarrow> grabDist | Bubble \<Rightarrow> bubbleDist
                               | Repulse \<Rightarrow> repulseDist);
                  searchArea = Boundary (mx - queryDist) (my - queryDist)
                                 (queryDist * 2) (queryDist * 2);
                  neighbors = query h1 searchArea qtree []
              in hover_neighbors mode ms mx my queryDist neighbors h1)"

section \<open>The engine (\<open>classes/Engine.ts\<close>)\<close>

text \<open>
  The state of an \<open>Engine\<close>: its particle array, the store of the particle objects, the
  merged configuration, the pointer, the canvas size and the frame timing. \<open>next_ref\<close>
  is the next unused reference; \<open>random_values\<close> and \<open>drawn\<close> are the random source.
\<close>

record Engine =
  e_particles :: "ref list"
  e_heap :: heap
  e_config :: Config
  e_mouse :: Mouse
  e_canvas :: Canvas
  lastTimestamp :: real
  firstFrame :: bool
  next_ref :: ref
  random_values :: random_source
  drawn :: nat

text \<open>\<open>this.particles.push(new Particle(this.canvas, this.config, position))\<close>.\<close>

definition spawn :: "(real \<times> real) option \<Rightarrow> Engine \<Rightarrow> Engine" where
  "spawn position e =
     (let (p, k) = new_Particle (e_canvas e) (e_config e) position (random_values e) (drawn e);
          r = next_ref e
      in e\<lparr>e_particles := e_particles e @ [r], e_heap := (e_heap e)(r := p),
           next_ref := Suc r, drawn := k\<rparr>)"

text \<open>
  \<open>for (let i = 0; i < n; i++) this.particles.push(new Particle(...))\<close>, the loop of
  \<open>init\<close> and of the push click, entered at counter \<open>i\<close>.
\<close>

lemma spawn_loop_measure:
  assumes "real i < n"
  shows "nat \<lceil>n\<rceil> - Suc i < nat \<lceil>n\<rceil> - i"
proof -
  have "real i < of_int \<lceil>n\<rceil>"
    using assms le_of_int_ceiling [of n] by linarith
  then have "int i < \<lceil>n\<rceil>"
    by linarith
  then have "i < nat \<lceil>n\<rceil>"
    by linarith
  then show ?thesis
    by simp
qed

function spawn_loop :: "nat \<Rightarrow> real \<Rightarrow> (real \<times> real) option \<Rightarrow> Engine \<Rightarrow> Engine" where
  "spawn_loop i n position e =
     (if real i < n then spawn_loop (Suc i) n position (spawn position e) else e)"
  by pat_completeness auto
termination
  by (relation "measure (\<lambda>(i, n, position, e). nat \<lceil>n\<rceil> - i)") (simp_all add: spawn_loop_measure)

declare spawn_loop.simps [simp del]

text \<open>\<open>calculateParticleCount()\<close>.\<close>

definition calculateParticleCount :: "Config \<Rightarrow> Canvas \<Rightarrow> real" where
  "calculateParticleCount cfg cv =
     (let value = number_value (cfg_number cfg);
          density = number_density (cfg_number cfg)
      in if \<not> density_enable density then value
         else let canvasArea = canvas_width cv * canvas_height cv;
                  densityArea = max (density_area density) 0.001 * 1000;
                  count = of_int \<lfloor>(canvasArea / densityArea) * value\<rfloor>
              in min count 2000)"

text \<open>\<open>init()\<close>, without the image-loading promise.\<close>

definition init :: "Engine \<Rightarrow> Engine" where
  "init e =
     (let e1 = e\<lparr>e_particles := []\<rparr>;
          count = calculateParticleCount (e_config e1) (e_canvas e1)
      in spawn_loop 0 count None e1)"

text \<open>
  \<open>handleResize\<close>: \<open>resizeCanvas()\<close> takes the displayed size of the canvas, an input
  here, and \<open>init()\<close> repopulates.
\<close>

definition handleResize :: "real \<Rightarrow> real \<Rightarrow> Engine \<Rightarrow> Engine" where
  "handleResize offsetWidth offsetHeight e =
     init (e\<lparr>e_canvas := \<lparr>canvas_width = offsetWidth, canvas_height = offsetHeight\<rparr>\<rparr>)"

text \<open>\<open>handleMouseMove\<close>, with the pointer position already relative to the canvas.\<close>

definition handleMouseMove :: "real \<Rightarrow> real \<Rightarrow> Engine \<Rightarrow> Engine" where
  "handleMouseMove x y e = e\<lparr>e_mouse := \<lparr>mouse_x = x, mouse_y = y, mouse_active = True\<rparr>\<rparr>"

definition handleMouseLeave :: "Engine \<Rightarrow> Engine" where
  "handleMouseLeave e = e\<lparr>e_mouse := (e_mouse e)\<lparr>mouse_active := False\<rparr>\<rparr>"

text \<open>The key of the comparator of the remove click: the squared distance to the pointer.\<close>

definition click_dist :: "Mouse \<Rightarrow> Particle \<Rightarrow> real" where
  "click_dist m a =
     (let dxA = pos_x a - mouse_x m;
          dyA = pos_y a - mouse_y m
      in dxA * dxA + dyA * dyA)"

text \<open>
  \<open>handleClick\<close>. \<open>Array.prototype.sort\<close> with the comparator \<open>distA - distB\<close> is the
  stable sort by that key (ECMAScript 2019), here \<^const>\<open>sort_key\<close>.
  \<open>splice(0, quantity)\<close> deletes the first \<open>quantity\<close> elements, the count truncated
  to an integer and clamped between zero and the length.
\<close>

definition handleClick :: "Engine \<Rightarrow> Engine" where
  "handleClick e =
     (let click = onclick (events (cfg_interactivity (e_config e)));
          ms = modes (cfg_interactivity (e_config e))
      in if \<not> onclick_enable click then e
         else if onclick_mode click = Push then
           spawn_loop 0 (push_quantity ms) (Some (mouse_x (e_mouse e), mouse_y (e_mouse e))) e
         else
           (let sorted = sort_key (\<lambda>a. click_dist (e_mouse e) (e_heap e a)) (e_particles e)
            in e\<lparr>e_particles := drop (nat \<lfloor>remove_quantity ms\<rfloor>) sorted\<rparr>))"

text \<open>The loop \<open>p.update(delta)\<close> over the particle array (\<open>p.draw\<close> changes no state).\<close>

fun update_particles :: "Config \<Rightarrow> Canvas \<Rightarrow> real \<Rightarrow> ref list \<Rightarrow> heap \<Rightarrow> heap" where
  "update_particles cfg cv delta [] h = h"
| "update_particles cfg cv delta (p # ps) h =
     update_particles cfg cv delta ps (h(p := update cfg cv delta (h p)))"

text \<open>
  \<open>render(timestamp)\<close>: one frame callback. The first callback only records the time;
  every later one is a full tick.
\<close>

definition render :: "real \<Rightarrow> Engine \<Rightarrow> Engine" where
  "render timestamp e =
     (if firstFrame e then e\<lparr>lastTimestamp := timestamp, firstFrame := False\<rparr>
      else let elapsed0 = timestamp - lastTimestamp e;
               elapsed = (if elapsed0 > 100 then 16.67 else elapsed0);
               delta = elapsed / (1000 / 60);
               width = canvas_width (e_canvas e);
               height = canvas_height (e_canvas e);
               qtree = build (e_heap e) (e_particles e) (Boundary 0 0 width height);
               h1 = applyAttraction (e_particles e) (e_config e) qtree (e_heap e);
               h2 = applyInteractions qtree (e_mouse e) (e_config e) (e_particles e) h1;
               h3 = update_particles (e_config e) (e_canvas e) delta (e_particles e) h2
           in e\<lparr>lastTimestamp := timestamp, e_heap := h3\<rparr>)"

text \<open>A particle at rest at a given position, for concrete instances of the properties.\<close>

definition particle_at :: "real \<Rightarrow> real \<Rightarrow> Particle" where
  "particle_at x y =
     \<lparr>pos_x = x, pos_y = y, vx = 0, vy = 0, initialRadius = 1, initialOpacity = 1,
      radius = 1, opacity = 1, rotation = 0, rotationRadians = 0,
      opacityDirection = 1, sizeDirection = 1, swayPhase = 0\<rparr>"

text \<open>
  A store with particles \<open>0\<close> to \<open>5\<close> on the diagonal, particle \<open>6\<close> at \<open>(5, 5)\<close> and
  particle \<open>7\<close> at \<open>(11, 11)\<close>.
\<close>

definition sample_heap :: heap where
  "sample_heap =
     (\<lambda>i. if i = 7 then particle_at 11 11
          else if i = 6 then particle_at 5 5 else particle_at (real i) (real i))"

section \<open>The default preset (\<open>lib/defaults.ts\<close>)\<close>

definition DEFAULTS :: Config where
  "DEFAULTS =
     \<lparr>cfg_number = \<lparr>number_value = 50,
                     number_density = \<lparr>density_enable = True, density_area = 800\<rparr>\<rparr>,
      cfg_shape = \<lparr>shape_type = Circle, shape_images = None\<rparr>,
      cfg_opacity = \<lparr>opacity_value = 0.5, opacity_random = False,
                      opacity_anim = \<lparr>opacity_anim_enable = False, opacity_anim_speed = 1,
                                       opacity_min = 0.1, opacity_anim_sync = False\<rparr>\<rparr>,
      cfg_size = \<lparr>size_value = 3, size_random = True,
                   size_anim = \<lparr>size_anim_enable = False, size_anim_speed = 4,
                                 size_min = 0.1, size_anim_sync = False\<rparr>\<rparr>,
      cfg_rotate = \<lparr>rotate_enable = True, rotate_value = 45, rotate_random = False,
                     rotate_anim = \<lparr>rotate_anim_enable = True, rotate_anim_speed = 2,
                                     rotate_anim_direction = CounterClockwise,
                                     rotate_anim_sync = False\<rparr>\<rparr>,
      cfg_move = \<lparr>move_enable = True, move_speed = 2, move_straight = False,
                   out_mode = Out,
                   move_randomized = \<lparr>randomized_enable = False, randomized_min = None,
                                       randomized_max = None\<rparr>,
                   move_direction = \<lparr>direction_to = DirNone, direction_random = False\<rparr>,
                   move_attract = \<lparr>attract_enable = False, rotateX = 3000, rotateY = 3000\<rparr>\<rparr>,
      cfg_sway = \<lparr>sway_enable = True, sway_amplitude = 10, sway_frequency = 0.05,
                   sway_random = True\<rparr>,
      cfg_interactivity =
        \<lparr>events = \<lparr>onhover = \<lparr>onhover_enable = True, onhover_mode = Repulse\<rparr>,
                    onclick = \<lparr>onclick_enable = True, onclick_mode = Push\<rparr>\<rparr>,
         modes = \<lparr>grab_distance = 100,
                   modes_bubble = \<lparr>bubble_distance = 200, bubble_size = 80,
                                    bubble_duration = 0.4, bubble_opacity = None\<rparr>,
                   modes_repulse = \<lparr>repulse_distance = 200, repulse_duration = 0.4\<rparr>,
                   push_quantity = 4, remove_quantity = 2\<rparr>\<rparr>\<rparr>"


definition no_sway :: "Config \<Rightarrow> Config" where
  "no_sway cfg = cfg\<lparr>cfg_sway := (cfg_sway cfg)\<lparr>sway_enable := False\<rparr>\<rparr>"

definition sample_canvas :: Canvas where
  "sample_canvas = \<lparr>canvas_width = 100, canvas_height = 100\<rparr>"

definition idle_mouse :: Mouse where
  "idle_mouse = \<lparr>mouse_x = 0, mouse_y = 0, mouse_active = False\<rparr>"

text \<open>An engine that has had its first frame, with the given configuration and particles.\<close>

definition engine_with :: "Config \<Rightarrow> Canvas \<Rightarrow> Mouse \<Rightarrow> ref list \<Rightarrow> heap \<Rightarrow> Engine" where
  "engine_with cfg cv m ps h =
     \<lparr>e_particles = ps, e_heap = h, e_config = cfg, e_mouse = m, e_canvas = cv,
      lastTimestamp = 0, firstFrame = False, next_ref = Suc (foldr max ps 0),
      random_values = (\<lambda>k. 1 / 2), drawn = 0\<rparr>"


text \<open>The preset with attraction switched on and factors \<open>rotateX = rotateY = 0.001\<close>.\<close>

definition attract_config :: Config where
  "attract_config =
     DEFAULTS\<lparr>cfg_move := (cfg_move DEFAULTS)\<lparr>move_attract :=
       \<lparr>attract_enable = True, rotateX = 1 / 1000, rotateY = 1 / 1000\<rparr>\<rparr>\<rparr>"

text \<open>The preset with the click mode \<open>remove\<close> and a given quantity.\<close>

definition remove_config :: "real \<Rightarrow> Config" where
  "remove_config q =
     DEFAULTS\<lparr>cfg_interactivity := (cfg_interactivity DEFAULTS)
       \<lparr>events := (events (cfg_interactivity DEFAULTS))
          \<lparr>onclick := \<lparr>onclick_enable = True, onclick_mode = Remove\<rparr>\<rparr>,
        modes := (modes (cfg_interactivity DEFAULTS))\<lparr>remove_quantity := q\<rparr>\<rparr>\<rparr>"

text \<open>
  \<open>precedes a b xs\<close>: \<open>a\<close> occurs in the list \<open>xs\<close>, and \<open>b\<close> occurs after the first
  occurrence of \<open>a\<close>.
\<close>

fun precedes :: "'a \<Rightarrow> 'a \<Rightarrow> 'a list \<Rightarrow> bool" where
  "precedes a b [] = False"
| "precedes a b (x # xs) = (if x = a then b \<in> set xs else precedes a b xs)"

text \<open>The preset with the hover mode \<open>bubble\<close>, hover enabled or not.\<close>

definition bubble_config :: "bool \<Rightarrow> Config" where
  "bubble_config enable =
     DEFAULTS\<lparr>cfg_interactivity := (cfg_interactivity DEFAULTS)
       \<lparr>events := (events (cfg_interactivity DEFAULTS))
          \<lparr>onhover := \<lparr>onhover_enable = enable, onhover_mode = Bubble\<rparr>\<rparr>\<rparr>\<rparr>"


text \<open>A store whose particles have been inflated: radius 7 and opacity 0.3, cached values 1.\<close>

definition inflated_heap :: heap where
  "inflated_heap = (\<lambda>i. (particle_at (real i) (real i))\<lparr>radius := 7, opacity := 0.3\<rparr>)"

section \<open>Properties of the spatial index\<close>

subsection \<open>The three outcomes of an insertion\<close>

lemma quadrants_cases:
  obtains nw ne sw se where "quadrants t = (nw, ne, sw, se)"
  by (metis prod_cases4)

lemma insert_outside: "\<not> contains (boundary t) (h p) \<Longrightarrow> insert_qt h p t = (False, t)"
  by (subst insert_qt.simps) simp

lemma insert_room:
  "contains (boundary t) (h p) \<Longrightarrow> length (particles t) < capacity \<Longrightarrow>
   insert_qt h p t = (True, push_particle p t)"
  by (subst insert_qt.simps) simp

lemma insert_full:
  assumes "contains (boundary t) (h p)" and "\<not> length (particles t) < capacity"
    and "quadrants t = (nw, ne, sw, se)"
  shows "insert_qt h p t =
     (if fst (insert_qt h p nw)
      then (True, Divided (boundary t) (particles t) (snd (insert_qt h p nw)) ne sw se)
      else if fst (insert_qt h p ne)
      then (True, Divided (boundary t) (particles t) (snd (insert_qt h p nw)) (snd (insert_qt h p ne)) sw se)
      else if fst (insert_qt h p sw)
      then (True, Divided (boundary t) (particles t) (snd (insert_qt h p nw)) (snd (insert_qt h p ne))
                    (snd (insert_qt h p sw)) se)
      else (fst (insert_qt h p se),
            Divided (boundary t) (particles t) (snd (insert_qt h p nw)) (snd (insert_qt h p ne))
                    (snd (insert_qt h p sw)) (snd (insert_qt h p se))))"
  using assms by (subst insert_qt.simps) (simp add: split_beta Let_def)

lemma boundary_push [simp]: "boundary (push_particle p t) = boundary t"
  by (cases t) simp_all

lemma boundary_insert [simp]: "boundary (snd (insert_qt h p t)) = boundary t"
proof (cases "contains (boundary t) (h p)")
  case False
  then show ?thesis by (simp add: insert_outside)
next
  case c: True
  show ?thesis
  proof (cases "length (particles t) < capacity")
    case True
    with c show ?thesis by (simp add: insert_room)
  next
    case False
    obtain nw ne sw se where "quadrants t = (nw, ne, sw, se)" by (rule quadrants_cases)
    from insert_full [where h = h and p = p, OF c False this] show ?thesis by simp
  qed
qed

lemma quadrant_cover:
  assumes "contains b q" and "subdivide b = (nw, ne, sw, se)"
  shows "contains (boundary nw) q \<or> contains (boundary ne) q \<or>
         contains (boundary sw) q \<or> contains (boundary se) q"
  using assms by (auto simp: contains_def subdivide_def Let_def)

lemma quadrants_tiled:
  assumes "tiled t" and "quadrants t = (nw, ne, sw, se)"
  shows "tiled nw \<and> tiled ne \<and> tiled sw \<and> tiled se \<and>
         (case subdivide (boundary t) of (nw0, ne0, sw0, se0) \<Rightarrow>
            boundary nw = boundary nw0 \<and> boundary ne = boundary ne0 \<and>
            boundary sw = boundary sw0 \<and> boundary se = boundary se0)"
  using assms by (cases t) (auto simp: subdivide_def Let_def)

lemma tiled_push [simp]: "tiled (push_particle p t) = tiled t"
  by (cases t) simp_all

lemma tiled_insert: "tiled t \<Longrightarrow> tiled (snd (insert_qt h p t))"
proof (induction t rule: measure_induct_rule [where f = depth_bound])
  case (less t)
  show ?case
  proof (cases "contains (boundary t) (h p)")
    case False
    with less.prems show ?thesis by (simp add: insert_outside)
  next
    case c: True
    show ?thesis
    proof (cases "length (particles t) < capacity")
      case True
      with c less.prems show ?thesis by (simp add: insert_room)
    next
      case False
      obtain nw ne sw se where q: "quadrants t = (nw, ne, sw, se)" by (rule quadrants_cases)
      note d = depth_bound_quadrants [OF q [symmetric] False]
      note t = quadrants_tiled [OF less.prems q]
      from t less.IH [OF d(1)] less.IH [OF d(2)] less.IH [OF d(3)] less.IH [OF d(4)]
      show ?thesis
        by (simp add: insert_full [where h = h and p = p, OF c False q] split: prod.splits)
    qed
  qed
qed

lemma insert_accepts: "tiled t \<Longrightarrow> fst (insert_qt h p t) \<longleftrightarrow> contains (boundary t) (h p)"
proof (induction t rule: measure_induct_rule [where f = depth_bound])
  case (less t)
  show ?case
  proof (cases "contains (boundary t) (h p)")
    case False
    then show ?thesis by (simp add: insert_outside)
  next
    case c: True
    show ?thesis
    proof (cases "length (particles t) < capacity")
      case True
      with c show ?thesis by (simp add: insert_room)
    next
      case False
      obtain nw ne sw se where q: "quadrants t = (nw, ne, sw, se)" by (rule quadrants_cases)
      obtain nw0 ne0 sw0 se0 where s: "subdivide (boundary t) = (nw0, ne0, sw0, se0)"
        by (metis prod_cases4)
      note d = depth_bound_quadrants [OF q [symmetric] False]
      note t = quadrants_tiled [OF less.prems q]
      from quadrant_cover [OF c s] t s
      have "contains (boundary nw) (h p) \<or> contains (boundary ne) (h p) \<or>
            contains (boundary sw) (h p) \<or> contains (boundary se) (h p)"
        by simp
      with t less.IH [OF d(1)] less.IH [OF d(2)] less.IH [OF d(3)] less.IH [OF d(4)] c
      show ?thesis
        by (auto simp: insert_full [where h = h and p = p, OF c False q])
    qed
  qed
qed


lemma refs_push [simp]: "mset (refs (push_particle p t)) = mset (refs t) + {#p#}"
  by (cases t) simp_all

lemma refs_quadrants:
  assumes "quadrants t = (nw, ne, sw, se)"
  shows "mset (refs t) =
     mset (particles t) + mset (refs nw) + mset (refs ne) + mset (refs sw) + mset (refs se)"
  using assms by (cases t) (auto simp: subdivide_def Let_def)

lemma refs_insert:
  "mset (refs (snd (insert_qt h p t))) = mset (refs t) + (if fst (insert_qt h p t) then {#p#} else {#})"
proof (induction t rule: measure_induct_rule [where f = depth_bound])
  case (less t)
  show ?case
  proof (cases "contains (boundary t) (h p)")
    case False
    then show ?thesis by (simp add: insert_outside)
  next
    case c: True
    show ?thesis
    proof (cases "length (particles t) < capacity")
      case True
      with c show ?thesis by (simp add: insert_room)
    next
      case False
      obtain nw ne sw se where q: "quadrants t = (nw, ne, sw, se)" by (rule quadrants_cases)
      note d = depth_bound_quadrants [OF q [symmetric] False]
      from less.IH [OF d(1)] less.IH [OF d(2)] less.IH [OF d(3)] less.IH [OF d(4)]
      show ?thesis
        by (simp add: insert_full [where h = h and p = p, OF c False q] refs_quadrants [OF q])
    qed
  qed
qed

lemma set_refs_insert:
  "set (refs (snd (insert_qt h p t))) = set (refs t) \<union> (if fst (insert_qt h p t) then {p} else {})"
proof -
  have "set (refs (snd (insert_qt h p t))) = set_mset (mset (refs (snd (insert_qt h p t))))"
    by simp
  also have "\<dots> = set (refs t) \<union> (if fst (insert_qt h p t) then {p} else {})"
    by (simp only: refs_insert) simp
  finally show ?thesis .
qed

lemma stored_inside_push:
  "stored_inside h t \<Longrightarrow> contains (boundary t) (h p) \<Longrightarrow> stored_inside h (push_particle p t)"
  by (cases t) simp_all

lemma stored_inside_refs:
  "stored_inside h t \<Longrightarrow> q \<in> set (refs t) \<Longrightarrow> contains (boundary t) (h q)"
  by (cases t) (auto simp: list_all_iff)

lemma stored_inside_quadrants:
  assumes "stored_inside h t" and "quadrants t = (nw, ne, sw, se)"
  shows "stored_inside h nw \<and> stored_inside h ne \<and> stored_inside h sw \<and> stored_inside h se"
  using assms by (cases t) (auto simp: subdivide_def Let_def)

lemma stored_inside_Divided:
  "stored_inside h (Divided b ps nw ne sw se) \<longleftrightarrow>
     (\<forall>q \<in> set ps \<union> set (refs nw) \<union> set (refs ne) \<union> set (refs sw) \<union> set (refs se).
        contains b (h q)) \<and>
     stored_inside h nw \<and> stored_inside h ne \<and> stored_inside h sw \<and> stored_inside h se"
  by (auto simp: list_all_iff)

lemma stored_inside_insert: "stored_inside h t \<Longrightarrow> stored_inside h (snd (insert_qt h p t))"
proof (induction t rule: measure_induct_rule [where f = depth_bound])
  case (less t)
  show ?case
  proof (cases "contains (boundary t) (h p)")
    case False
    with less.prems show ?thesis by (simp add: insert_outside)
  next
    case c: True
    show ?thesis
    proof (cases "length (particles t) < capacity")
      case True
      with c less.prems show ?thesis by (simp add: insert_room stored_inside_push)
    next
      case False
      obtain nw ne sw se where q: "quadrants t = (nw, ne, sw, se)" by (rule quadrants_cases)
      note d = depth_bound_quadrants [OF q [symmetric] False]
      note s = stored_inside_quadrants [OF less.prems q]
      have inside: "\<forall>q \<in> set (particles t) \<union> set (refs nw) \<union> set (refs ne) \<union> set (refs sw)
          \<union> set (refs se) \<union> {p}. contains (boundary t) (h q)"
      proof -
        have "set (refs t) =
            set (particles t) \<union> set (refs nw) \<union> set (refs ne) \<union> set (refs sw) \<union> set (refs se)"
          using arg_cong [OF refs_quadrants [OF q], of set_mset] by simp
        with stored_inside_refs [OF less.prems] c show ?thesis by auto
      qed
      have sub: "set (refs (snd (insert_qt h p c))) \<subseteq> set (refs c) \<union> {p}" for c
        by (auto simp: set_refs_insert)
      from s inside less.IH [OF d(1)] less.IH [OF d(2)] less.IH [OF d(3)] less.IH [OF d(4)]
        sub [of nw] sub [of ne] sub [of sw] sub [of se]
      show ?thesis
        by (simp add: insert_full [where h = h and p = p, OF c False q] list_all_iff) blast
    qed
  qed
qed

lemma contains_intersects: "contains b q \<Longrightarrow> contains r q \<Longrightarrow> intersects b r"
  by (auto simp: contains_def intersects_def)

lemma no_intersection:
  assumes "stored_inside h t" and "\<not> intersects (boundary t) r"
  shows "filter (\<lambda>p. contains r (h p)) (refs t) = []"
  using assms stored_inside_refs contains_intersects by (fastforce simp: filter_empty_conv)

lemma query_refs:
  "stored_inside h t \<Longrightarrow> query h r t found = found @ filter (\<lambda>p. contains r (h p)) (refs t)"
proof (induction t arbitrary: found)
  case (Undivided b ps)
  then show ?case using no_intersection [of h "Undivided b ps" r] by simp
next
  case (Divided b ps nw ne sw se)
  show ?case
  proof (cases "intersects b r")
    case False
    with no_intersection [OF Divided.prems, of r] show ?thesis by simp
  next
    case True
    with Divided show ?thesis by (simp add: Let_def)
  qed
qed

subsection \<open>Building the index\<close>

lemma insert_list_props:
  assumes "tiled t" and "stored_inside h t"
  shows "case insert_list h ps t of (ins, t') \<Rightarrow>
           tiled t' \<and> stored_inside h t' \<and> boundary t' = boundary t \<and>
           mset (refs t') = mset (refs t) + mset ins \<and>
           ins = filter (\<lambda>p. contains (boundary t) (h p)) ps"
  using assms
proof (induction ps arbitrary: t)
  case Nil
  then show ?case by simp
next
  case (Cons p ps)
  let ?t1 = "snd (insert_qt h p t)"
  have t1: "tiled ?t1" "stored_inside h ?t1"
    using Cons.prems by (simp_all add: tiled_insert stored_inside_insert)
  from Cons.IH [OF t1] insert_accepts [OF Cons.prems(1), of h p] refs_insert [of h p t]
  show ?case
    by (auto simp: split_beta)
qed



lemma covers_contains: "covers rng b \<Longrightarrow> contains b q \<Longrightarrow> contains rng q"
  by (auto simp: covers_def contains_def)



lemma sample_index:
  "insert_list (\<lambda>i. particle_at (real i) (real i)) [0, 1, 2, 3, 4, 5]
     (Undivided (Boundary 0 0 10 10) []) =
   ([0, 1, 2, 3, 4, 5],
    Divided (Boundary 0 0 10 10) [0, 1, 2, 3]
      (Undivided (Boundary 0 0 5 5) [4, 5]) (Undivided (Boundary 5 0 5 5) [])
      (Undivided (Boundary 0 5 5 5) []) (Undivided (Boundary 5 5 5 5) []))"
  by (simp add: insert_qt.simps particle_at_def contains_def capacity_def subdivide_def Let_def)

subsection \<open>Claims about the index\<close>

text \<open>
  C1. Insert the particles of a duplicate-free array, one after the other, into a fresh
  index with any boundary, and query any range: the result holds exactly the particles
  whose insertion succeeded and whose position lies inside the range (edges inclusive),
  each of them once; a range that covers the boundary of the index returns every
  inserted particle.
\<close>

theorem query_returns_inserted_in_range:
  assumes "distinct ps"
  shows "case insert_list h ps (Undivided b []) of (inserted, t) \<Rightarrow>
           set (query h rng t []) = {p \<in> set inserted. contains rng (h p)} \<and>
           distinct (query h rng t []) \<and>
           (covers rng b \<longrightarrow> set (query h rng t []) = set inserted)"
proof -
  obtain inserted t where it: "insert_list h ps (Undivided b []) = (inserted, t)"
    by (cases "insert_list h ps (Undivided b [])")
  from insert_list_props [of "Undivided b []" h ps] it
  have st: "stored_inside h t" and m: "mset (refs t) = mset inserted"
    and ins: "inserted = filter (\<lambda>p. contains b (h p)) ps"
    by simp_all
  have q: "query h rng t [] = filter (\<lambda>p. contains rng (h p)) (refs t)"
    using query_refs [OF st, of rng "[]"] by simp
  have s: "set (refs t) = set inserted"
    using m by (rule mset_eq_setD)
  have "distinct inserted"
    using assms ins by simp
  then have d: "distinct (refs t)"
    using m by (metis mset_eq_imp_distinct_iff)
  have c: "set (query h rng t []) = set inserted" if "covers rng b"
    using that ins s q by (auto simp: covers_contains)
  from q s d c it show ?thesis
    by auto
qed

text \<open>
  Six particles on the diagonal of a 10 by 10 index: the fifth and sixth go to the
  northwest child. The range from 0 to 3 returns the first four, a covering range all six.
\<close>

theorem query_returns_inserted_in_range_witness:
  "distinct [0, 1, 2, 3, 4, 5 :: nat] \<and>
   (case insert_list (\<lambda>i. particle_at (real i) (real i)) [0, 1, 2, 3, 4, 5]
           (Undivided (Boundary 0 0 10 10) []) of
      (inserted, t) \<Rightarrow>
        inserted = [0, 1, 2, 3, 4, 5] \<and>
        query (\<lambda>i. particle_at (real i) (real i)) (Boundary 0 0 3 3) t [] = [0, 1, 2, 3] \<and>
        set (query (\<lambda>i. particle_at (real i) (real i)) (Boundary 0 0 3 3) t []) =
          {p \<in> set inserted. contains (Boundary 0 0 3 3) (particle_at (real p) (real p))} \<and>
        distinct (query (\<lambda>i. particle_at (real i) (real i)) (Boundary 0 0 3 3) t []) \<and>
        covers (Boundary (- 1) (- 1) 12 12) (Boundary 0 0 10 10) \<and>
        set (query (\<lambda>i. particle_at (real i) (real i)) (Boundary (- 1) (- 1) 12 12) t []) =
          set inserted)"
  using
    query_returns_inserted_in_range [where ps = "[0, 1, 2, 3, 4, 5]"
      and h = "\<lambda>i. particle_at (real i) (real i)" and b = "Boundary 0 0 10 10"
      and rng = "Boundary 0 0 3 3"]
    query_returns_inserted_in_range [where ps = "[0, 1, 2, 3, 4, 5]"
      and h = "\<lambda>i. particle_at (real i) (real i)" and b = "Boundary 0 0 10 10"
      and rng = "Boundary (- 1) (- 1) 12 12"]
  unfolding sample_index
  by (auto simp: covers_def intersects_def contains_def particle_at_def)





section \<open>Properties of the boundary policy\<close>

subsection \<open>What each step of \<open>update\<close> leaves alone\<close>

lemma handleOutMode_keeps [simp]:
  "radius (handleOutMode cfg cv p) = radius p"
  "opacity (handleOutMode cfg cv p) = opacity p"
  "initialRadius (handleOutMode cfg cv p) = initialRadius p"
  "initialOpacity (handleOutMode cfg cv p) = initialOpacity p"
  by (simp_all add: handleOutMode_def Let_def)

lemma handleSway_keeps [simp]:
  "vx (handleSway cfg delta p) = vx p"
  "vy (handleSway cfg delta p) = vy p"
  "pos_y (handleSway cfg delta p) = pos_y p"
  "radius (handleSway cfg delta p) = radius p"
  "opacity (handleSway cfg delta p) = opacity p"
  "initialRadius (handleSway cfg delta p) = initialRadius p"
  "initialOpacity (handleSway cfg delta p) = initialOpacity p"
  by (simp_all add: handleSway_def Let_def)

lemma handleOpacityAnimation_keeps [simp]:
  "pos_x (handleOpacityAnimation cfg delta p) = pos_x p"
  "pos_y (handleOpacityAnimation cfg delta p) = pos_y p"
  "vx (handleOpacityAnimation cfg delta p) = vx p"
  "vy (handleOpacityAnimation cfg delta p) = vy p"
  "radius (handleOpacityAnimation cfg delta p) = radius p"
  "initialRadius (handleOpacityAnimation cfg delta p) = initialRadius p"
  by (simp_all add: handleOpacityAnimation_def Let_def)

lemma handleSizeAnimation_keeps [simp]:
  "pos_x (handleSizeAnimation cfg delta p) = pos_x p"
  "pos_y (handleSizeAnimation cfg delta p) = pos_y p"
  "vx (handleSizeAnimation cfg delta p) = vx p"
  "vy (handleSizeAnimation cfg delta p) = vy p"
  "opacity (handleSizeAnimation cfg delta p) = opacity p"
  "initialOpacity (handleSizeAnimation cfg delta p) = initialOpacity p"
  by (simp_all add: handleSizeAnimation_def Let_def)

lemma handleRotationAnimation_keeps [simp]:
  "pos_x (handleRotationAnimation cfg delta p) = pos_x p"
  "pos_y (handleRotationAnimation cfg delta p) = pos_y p"
  "vx (handleRotationAnimation cfg delta p) = vx p"
  "vy (handleRotationAnimation cfg delta p) = vy p"
  "radius (handleRotationAnimation cfg delta p) = radius p"
  "opacity (handleRotationAnimation cfg delta p) = opacity p"
  "initialRadius (handleRotationAnimation cfg delta p) = initialRadius p"
  "initialOpacity (handleRotationAnimation cfg delta p) = initialOpacity p"
  by (simp_all add: handleRotationAnimation_def Let_def)

lemma update_pos_x_no_sway:
  assumes "\<not> sway_enable (cfg_sway cfg)"
  shows "pos_x (update cfg cv delta p) =
         pos_x (handleOutMode cfg cv (p\<lparr>pos_x := pos_x p + vx p * delta,
                                        pos_y := pos_y p + vy p * delta\<rparr>))"
  using assms by (simp add: update_def Let_def)


subsection \<open>Claims about the boundary policy\<close>




text \<open>
  C8 (as amended). Under boundary mode wrap (\<open>out\<close>), \<open>handleOutMode\<close> translates a
  particle whose right edge is left of the canvas (\<open>x + r < 0\<close>) by exactly
  \<open>width + 2 r\<close> to the right, and one whose left edge is right of the canvas
  (\<open>x - r > width\<close>) by exactly \<open>width + 2 r\<close> to the left; otherwise \<open>x\<close> stays. The
  same holds vertically with the height; the velocity is not changed. In a tick
  (\<open>update\<close>) the test comes after the position integration: with sway disabled,
  \<open>delta \<ge> 0\<close>, a non-negative radius and width, a particle at
  \<open>x = width + radius + 1\<close> moving rightward ends the tick at
  \<open>x + vx * delta - (width + 2 radius)\<close>.
\<close>

theorem wrap_translates_by_dimension:
  assumes "out_mode (cfg_move cfg) \<noteq> Bounce"
  shows
    "(pos_x p + radius p < 0 \<longrightarrow>
        pos_x (handleOutMode cfg cv p) = pos_x p + (canvas_width cv + radius p * 2)) \<and>
     (\<not> pos_x p + radius p < 0 \<and> pos_x p - radius p > canvas_width cv \<longrightarrow>
        pos_x (handleOutMode cfg cv p) = pos_x p - (canvas_width cv + radius p * 2)) \<and>
     (\<not> pos_x p + radius p < 0 \<and> \<not> pos_x p - radius p > canvas_width cv \<longrightarrow>
        pos_x (handleOutMode cfg cv p) = pos_x p) \<and>
     (pos_y p + radius p < 0 \<longrightarrow>
        pos_y (handleOutMode cfg cv p) = pos_y p + (canvas_height cv + radius p * 2)) \<and>
     (\<not> pos_y p + radius p < 0 \<and> pos_y p - radius p > canvas_height cv \<longrightarrow>
        pos_y (handleOutMode cfg cv p) = pos_y p - (canvas_height cv + radius p * 2)) \<and>
     (\<not> pos_y p + radius p < 0 \<and> \<not> pos_y p - radius p > canvas_height cv \<longrightarrow>
        pos_y (handleOutMode cfg cv p) = pos_y p) \<and>
     vx (handleOutMode cfg cv p) = vx p \<and> vy (handleOutMode cfg cv p) = vy p \<and>
     radius (handleOutMode cfg cv p) = radius p \<and>
     (\<not> sway_enable (cfg_sway cfg) \<and> 0 \<le> delta \<and> 0 \<le> radius p \<and> 0 \<le> canvas_width cv \<and>
      pos_x p = canvas_width cv + radius p + 1 \<and> vx p > 0 \<longrightarrow>
        pos_x (update cfg cv delta p) =
          pos_x p + vx p * delta - (canvas_width cv + 2 * radius p))"
proof -
  have step: "pos_x (update cfg cv delta p) =
      pos_x p + vx p * delta - (canvas_width cv + 2 * radius p)"
    if "\<not> sway_enable (cfg_sway cfg)" "0 \<le> delta" "0 \<le> radius p" "0 \<le> canvas_width cv"
      "pos_x p = canvas_width cv + radius p + 1" "vx p > 0"
  proof -
    have "0 \<le> vx p * delta"
      using that by simp
    then have "\<not> pos_x p + vx p * delta + radius p < 0"
      and "pos_x p + vx p * delta - radius p > canvas_width cv"
      using that by linarith+
    with assms that(1) show ?thesis
      by (simp add: update_pos_x_no_sway handleOutMode_def Let_def)
  qed
  from assms step show ?thesis
    by (simp add: handleOutMode_def Let_def)
qed

text \<open>
  On a canvas 100 wide, a particle of radius 1 at \<open>x = 102\<close> with \<open>vx = 1\<close>:
  \<open>handleOutMode\<close> alone moves it to \<open>0\<close>, a tick with \<open>delta = 1\<close> to \<open>1\<close>.
\<close>

theorem wrap_translates_by_dimension_witness:
  "out_mode (cfg_move (no_sway DEFAULTS)) \<noteq> Bounce \<and>
   \<not> sway_enable (cfg_sway (no_sway DEFAULTS)) \<and>
   pos_x ((particle_at 102 50)\<lparr>vx := 1\<rparr>) =
     canvas_width sample_canvas + radius ((particle_at 102 50)\<lparr>vx := 1\<rparr>) + 1 \<and>
   pos_x (handleOutMode (no_sway DEFAULTS) sample_canvas ((particle_at 102 50)\<lparr>vx := 1\<rparr>)) = 0 \<and>
   pos_x (update (no_sway DEFAULTS) sample_canvas 1 ((particle_at 102 50)\<lparr>vx := 1\<rparr>)) = 1"
  using
    wrap_translates_by_dimension [where cfg = "no_sway DEFAULTS" and cv = sample_canvas
      and p = "(particle_at 102 50)\<lparr>vx := 1\<rparr>" and delta = 1]
  by (simp add: no_sway_def DEFAULTS_def particle_at_def sample_canvas_def)

text \<open>
  The claim as stated fails for the tick: the particle at \<open>x = width + radius + 1 = 102\<close>
  moving rightward ends the tick at \<open>1\<close>, not at \<open>x - (width + 2 radius) = 0\<close>.
\<close>

theorem wrap_one_tick_counterexample:
  "out_mode (cfg_move (no_sway DEFAULTS)) = Out \<and>
   pos_x ((particle_at 102 50)\<lparr>vx := 1\<rparr>) =
     canvas_width sample_canvas + radius ((particle_at 102 50)\<lparr>vx := 1\<rparr>) + 1 \<and>
   vx ((particle_at 102 50)\<lparr>vx := 1\<rparr>) > 0 \<and>
   pos_x (update (no_sway DEFAULTS) sample_canvas 1 ((particle_at 102 50)\<lparr>vx := 1\<rparr>)) = 1 \<and>
   pos_x ((particle_at 102 50)\<lparr>vx := 1\<rparr>)
     - (canvas_width sample_canvas + 2 * radius ((particle_at 102 50)\<lparr>vx := 1\<rparr>)) = 0"
  by (simp add: no_sway_def DEFAULTS_def particle_at_def sample_canvas_def update_def
      handleOutMode_def handleSway_def handleOpacityAnimation_def handleSizeAnimation_def
      handleRotationAnimation_def Let_def)

section \<open>Properties of the population size\<close>


lemma spawn_keeps [simp]:
  "e_config (spawn position e) = e_config e"
  "e_canvas (spawn position e) = e_canvas e"
  by (simp_all add: spawn_def split_beta Let_def)






section \<open>Properties of the attraction pass\<close>

lemma query_same_positions:
  assumes "\<And>r. pos_x (h' r) = pos_x (h r) \<and> pos_y (h' r) = pos_y (h r)"
  shows "query h' rng t found = query h rng t found"
proof -
  have "contains rng (h' r) = contains rng (h r)" for r
    using assms [of r] by (simp add: contains_def)
  then show ?thesis
    by (induction t arbitrary: found) (simp_all add: Let_def)
qed

lemma attract_neighbors_eq:
  "attract_neighbors rotX rotY p1 ns h =
     h(p1 := (h p1)
       \<lparr>vx := vx (h p1)
              - (\<Sum>p2\<leftarrow>filter (\<lambda>p2. p2 \<noteq> p1) ns. (pos_x (h p1) - pos_x (h p2)) / rotX),
        vy := vy (h p1)
              - (\<Sum>p2\<leftarrow>filter (\<lambda>p2. p2 \<noteq> p1) ns. (pos_y (h p1) - pos_y (h p2)) / rotY)\<rparr>)"
proof (induction ns arbitrary: h)
  case Nil
  then show ?case by simp
next
  case (Cons p2 ns)
  show ?case
  proof (cases "p1 = p2")
    case True
    with Cons.IH [of h] show ?thesis by simp
  next
    case False
    let ?h2 = "h(p1 := (h p1)\<lparr>vx := vx (h p1) - (pos_x (h p1) - pos_x (h p2)) / rotX,
                               vy := vy (h p1) - (pos_y (h p1) - pos_y (h p2)) / rotY\<rparr>)"
    have step: "attract_neighbors rotX rotY p1 (p2 # ns) h = attract_neighbors rotX rotY p1 ns ?h2"
      using False by (simp add: Let_def)
    have sx: "(\<Sum>q\<leftarrow>filter (\<lambda>q. q \<noteq> p1) ns. (pos_x (?h2 p1) - pos_x (?h2 q)) / rotX) =
        (\<Sum>q\<leftarrow>filter (\<lambda>q. q \<noteq> p1) ns. (pos_x (h p1) - pos_x (h q)) / rotX)"
      by (rule arg_cong [where f = sum_list], rule map_cong) simp_all
    have sy: "(\<Sum>q\<leftarrow>filter (\<lambda>q. q \<noteq> p1) ns. (pos_y (?h2 p1) - pos_y (?h2 q)) / rotY) =
        (\<Sum>q\<leftarrow>filter (\<lambda>q. q \<noteq> p1) ns. (pos_y (h p1) - pos_y (h q)) / rotY)"
      by (rule arg_cong [where f = sum_list], rule map_cong) simp_all
    show ?thesis
      unfolding step Cons.IH [of ?h2] sx sy using False by (simp add: algebra_simps)
  qed
qed

lemma attract_particles_eq:
  assumes "distinct ps"
  shows "attract_particles rotX rotY qt ps h =
     (\<lambda>r. if r \<in> set ps then (h r)
         \<lparr>vx := vx (h r)
            - (\<Sum>p2\<leftarrow>filter (\<lambda>p2. p2 \<noteq> r)
                  (query h (Boundary (pos_x (h r) - rangeRadius) (pos_y (h r) - rangeRadius)
                     (rangeRadius * 2) (rangeRadius * 2)) qt []).
                (pos_x (h r) - pos_x (h p2)) / rotX),
          vy := vy (h r)
            - (\<Sum>p2\<leftarrow>filter (\<lambda>p2. p2 \<noteq> r)
                  (query h (Boundary (pos_x (h r) - rangeRadius) (pos_y (h r) - rangeRadius)
                     (rangeRadius * 2) (rangeRadius * 2)) qt []).
                (pos_y (h r) - pos_y (h p2)) / rotY)\<rparr>
       else h r)"
  using assms
proof (induction ps arbitrary: h)
  case Nil
  then show ?case by simp
next
  case (Cons p1 ps)
  let ?ns = "query h (Boundary (pos_x (h p1) - rangeRadius) (pos_y (h p1) - rangeRadius)
      (rangeRadius * 2) (rangeRadius * 2)) qt []"
  let ?h1 = "attract_neighbors rotX rotY p1 ?ns h"
  have pos: "pos_x (?h1 r) = pos_x (h r) \<and> pos_y (?h1 r) = pos_y (h r)" for r
    by (simp add: attract_neighbors_eq)
  have q: "query ?h1 rng qt [] = query h rng qt []" for rng
    using pos by (rule query_same_positions)
  have other: "?h1 r = h r" if "r \<noteq> p1" for r
    using that by (simp add: attract_neighbors_eq)
  have step: "attract_particles rotX rotY qt (p1 # ps) h = attract_particles rotX rotY qt ps ?h1"
    by (simp add: Let_def)
  from Cons.prems have d: "distinct ps" and n: "p1 \<notin> set ps"
    by simp_all
  show ?case
    unfolding step Cons.IH [OF d, of ?h1] q
  proof (rule ext)
    fix r
    show "(if r \<in> set ps then (?h1 r)
         \<lparr>vx := vx (?h1 r)
            - (\<Sum>p2\<leftarrow>filter (\<lambda>p2. p2 \<noteq> r)
                  (query h (Boundary (pos_x (?h1 r) - rangeRadius) (pos_y (?h1 r) - rangeRadius)
                     (rangeRadius * 2) (rangeRadius * 2)) qt []).
                (pos_x (?h1 r) - pos_x (?h1 p2)) / rotX),
          vy := vy (?h1 r)
            - (\<Sum>p2\<leftarrow>filter (\<lambda>p2. p2 \<noteq> r)
                  (query h (Boundary (pos_x (?h1 r) - rangeRadius) (pos_y (?h1 r) - rangeRadius)
                     (rangeRadius * 2) (rangeRadius * 2)) qt []).
                (pos_y (?h1 r) - pos_y (?h1 p2)) / rotY)\<rparr>
       else ?h1 r) =
      (if r \<in> set (p1 # ps) then (h r)
         \<lparr>vx := vx (h r)
            - (\<Sum>p2\<leftarrow>filter (\<lambda>p2. p2 \<noteq> r)
                  (query h (Boundary (pos_x (h r) - rangeRadius) (pos_y (h r) - rangeRadius)
                     (rangeRadius * 2) (rangeRadius * 2)) qt []).
                (pos_x (h r) - pos_x (h p2)) / rotX),
          vy := vy (h r)
            - (\<Sum>p2\<leftarrow>filter (\<lambda>p2. p2 \<noteq> r)
                  (query h (Boundary (pos_x (h r) - rangeRadius) (pos_y (h r) - rangeRadius)
                     (rangeRadius * 2) (rangeRadius * 2)) qt []).
                (pos_y (h r) - pos_y (h p2)) / rotY)\<rparr>
       else h r)"
    proof (cases "r = p1")
      case True
      with n show ?thesis
        by (simp add: attract_neighbors_eq)
    next
      case False
      then show ?thesis
        by (simp add: pos other)
    qed
  qed
qed

text \<open>
  C6. With attraction disabled \<open>applyAttraction\<close> leaves the store, and so every
  velocity, as it is. With attraction enabled (and non-zero factors, an array without
  repetition), every particle \<open>p\<close> of the array ends with its velocity decremented by
  \<open>(dx / (rotateX * 1000), dy / (rotateY * 1000))\<close> for every \<open>q \<noteq> p\<close> returned by
  the query over the square of half-width 200 centred on \<open>p\<close>, where
  \<open>(dx, dy)\<close> is the position of \<open>p\<close> minus that of \<open>q\<close>; positions are not changed.
\<close>

theorem attraction_effect:
  "(\<not> attract_enable (move_attract (cfg_move cfg)) \<longrightarrow> applyAttraction ps cfg qt h = h) \<and>
   (attract_enable (move_attract (cfg_move cfg)) \<and>
    rotateX (move_attract (cfg_move cfg)) \<noteq> 0 \<and> rotateY (move_attract (cfg_move cfg)) \<noteq> 0 \<and>
    distinct ps \<and> p \<in> set ps \<longrightarrow>
      vx (applyAttraction ps cfg qt h p) =
        vx (h p)
        - (\<Sum>q\<leftarrow>filter (\<lambda>q. q \<noteq> p)
              (query h (Boundary (pos_x (h p) - 200) (pos_y (h p) - 200) (200 * 2) (200 * 2))
                 qt []).
            (pos_x (h p) - pos_x (h q)) / (rotateX (move_attract (cfg_move cfg)) * 1000)) \<and>
      vy (applyAttraction ps cfg qt h p) =
        vy (h p)
        - (\<Sum>q\<leftarrow>filter (\<lambda>q. q \<noteq> p)
              (query h (Boundary (pos_x (h p) - 200) (pos_y (h p) - 200) (200 * 2) (200 * 2))
                 qt []).
            (pos_y (h p) - pos_y (h q)) / (rotateY (move_attract (cfg_move cfg)) * 1000)) \<and>
      pos_x (applyAttraction ps cfg qt h p) = pos_x (h p) \<and>
      pos_y (applyAttraction ps cfg qt h p) = pos_y (h p))"
  by (simp add: applyAttraction_def Let_def attract_particles_eq rangeRadius_def)

lemma sample_three:
  "build sample_heap [0, 1, 2] (Boundary 0 0 10 10) = Undivided (Boundary 0 0 10 10) [0, 1, 2]"
  by (simp add: build_def insert_qt.simps sample_heap_def particle_at_def contains_def
      capacity_def)

text \<open>
  Three particles at \<open>(0, 0)\<close>, \<open>(1, 1)\<close> and \<open>(2, 2)\<close>, all within range of each
  other, with factors \<open>0.001\<close>: the first is pulled by \<open>1 + 2\<close>, the second by
  \<open>-1 + 1\<close>, the third by \<open>-2 - 1\<close>. With the preset, attraction is off.
\<close>

theorem attraction_effect_witness:
  "attract_enable (move_attract (cfg_move attract_config)) \<and>
   rotateX (move_attract (cfg_move attract_config)) \<noteq> 0 \<and>
   rotateY (move_attract (cfg_move attract_config)) \<noteq> 0 \<and>
   distinct [0, 1, 2 :: nat] \<and>
   vx (applyAttraction [0, 1, 2] attract_config
         (build sample_heap [0, 1, 2] (Boundary 0 0 10 10)) sample_heap 0) = 3 \<and>
   vy (applyAttraction [0, 1, 2] attract_config
         (build sample_heap [0, 1, 2] (Boundary 0 0 10 10)) sample_heap 2) = - 3 \<and>
   \<not> attract_enable (move_attract (cfg_move DEFAULTS)) \<and>
   applyAttraction [0, 1, 2] DEFAULTS
     (build sample_heap [0, 1, 2] (Boundary 0 0 10 10)) sample_heap = sample_heap"
  using
    attraction_effect [where cfg = attract_config and ps = "[0, 1, 2]"
      and qt = "build sample_heap [0, 1, 2] (Boundary 0 0 10 10)" and h = sample_heap and p = 0]
    attraction_effect [where cfg = attract_config and ps = "[0, 1, 2]"
      and qt = "build sample_heap [0, 1, 2] (Boundary 0 0 10 10)" and h = sample_heap and p = 2]
    attraction_effect [where cfg = DEFAULTS and ps = "[0, 1, 2]"
      and qt = "build sample_heap [0, 1, 2] (Boundary 0 0 10 10)" and h = sample_heap]
  unfolding sample_three
  by (simp add: attract_config_def DEFAULTS_def sample_heap_def particle_at_def contains_def
      intersects_def)

section \<open>Properties of the remove click\<close>

lemma precedes_member: "precedes a b xs \<Longrightarrow> a \<in> set xs \<and> b \<in> set xs"
  by (induction xs) (auto split: if_splits)

lemma precedes_append: "a \<in> set ys \<Longrightarrow> b \<in> set zs \<Longrightarrow> precedes a b (ys @ zs)"
  by (induction ys) auto

lemma precedes_filter: "precedes a b xs \<Longrightarrow> P a \<Longrightarrow> P b \<Longrightarrow> precedes a b (filter P xs)"
  by (induction xs) (auto split: if_splits)

lemma precedes_filterD: "precedes a b (filter P xs) \<Longrightarrow> precedes a b xs"
proof (induction xs)
  case Nil
  then show ?case by simp
next
  case (Cons x xs)
  show ?case
  proof (cases "x = a")
    case True
    show ?thesis
    proof (cases "P a")
      case True
      with \<open>x = a\<close> Cons.prems show ?thesis by simp
    next
      case False
      with \<open>x = a\<close> Cons.prems have "precedes a b (filter P xs)" by simp
      then have "a \<in> set (filter P xs)" by (auto dest: precedes_member)
      with False show ?thesis by simp
    qed
  next
    case False
    with Cons.prems have "precedes a b (filter P xs)"
      by (simp split: if_splits)
    then have "precedes a b xs"
      by (rule Cons.IH)
    with False show ?thesis
      by simp
  qed
qed

lemma sorted_precedes:
  "sorted (map f xs) \<Longrightarrow> a \<in> set xs \<Longrightarrow> b \<in> set xs \<Longrightarrow> f b < f a \<Longrightarrow> precedes b a xs"
proof (induction xs)
  case Nil
  then show ?case by simp
next
  case (Cons x xs)
  show ?case
  proof (cases "x = b")
    case True
    with Cons.prems show ?thesis by auto
  next
    case False
    with Cons.prems have b: "b \<in> set xs" by simp
    have "x \<noteq> a"
    proof
      assume "x = a"
      with Cons.prems(1) b have "f a \<le> f b" by simp
      with Cons.prems(4) show False by simp
    qed
    with False Cons show ?thesis by simp
  qed
qed

lemma take_drop_order:
  assumes "sorted (map f xs)" and "a \<in> set (take n xs)" and "b \<in> set (drop n xs)"
  shows "f a \<le> f b"
proof -
  have "sorted (map f (take n xs) @ map f (drop n xs))"
    using assms(1) by (simp flip: map_append)
  with assms(2,3) show ?thesis
    by (simp add: sorted_append)
qed

lemma handleClick_remove:
  assumes "onclick_enable (onclick (events (cfg_interactivity (e_config e))))"
    and "onclick_mode (onclick (events (cfg_interactivity (e_config e)))) = Remove"
  shows "handleClick e =
     e\<lparr>e_particles :=
         drop (nat \<lfloor>remove_quantity (modes (cfg_interactivity (e_config e)))\<rfloor>)
           (sort_key (\<lambda>a. click_dist (e_mouse e) (e_heap e a)) (e_particles e))\<rparr>"
  using assms by (simp add: handleClick_def Let_def)

text \<open>
  C9. A click with click interaction enabled, mode remove and configured quantity \<open>q\<close>,
  on an array of distinct particles: the particles that remain were all there before
  and the store is untouched; the removed particles number \<open>q\<close> truncated to an
  integer, or all particles if there are fewer (so exactly \<open>q\<close> for a natural number
  \<open>q\<close> not above the population); every removed particle has a squared distance to
  the pointer that is at most that of every remaining one, and where the two distances
  are equal the removed particle came first in the array before the click.
\<close>

theorem remove_click_removes_closest:
  assumes "onclick_enable (onclick (events (cfg_interactivity (e_config e))))"
    and "onclick_mode (onclick (events (cfg_interactivity (e_config e)))) = Remove"
    and "distinct (e_particles e)"
  shows
    "set (e_particles (handleClick e)) \<subseteq> set (e_particles e) \<and>
     distinct (e_particles (handleClick e)) \<and>
     e_heap (handleClick e) = e_heap e \<and>
     card (set (e_particles e) - set (e_particles (handleClick e))) =
       min (nat \<lfloor>remove_quantity (modes (cfg_interactivity (e_config e)))\<rfloor>)
           (length (e_particles e)) \<and>
     (remove_quantity (modes (cfg_interactivity (e_config e))) = real k \<and>
      k \<le> length (e_particles e) \<longrightarrow>
        card (set (e_particles e) - set (e_particles (handleClick e))) = k) \<and>
     (\<forall>a \<in> set (e_particles e) - set (e_particles (handleClick e)).
      \<forall>b \<in> set (e_particles (handleClick e)).
        click_dist (e_mouse e) (e_heap e a) \<le> click_dist (e_mouse e) (e_heap e b) \<and>
        (click_dist (e_mouse e) (e_heap e a) = click_dist (e_mouse e) (e_heap e b) \<longrightarrow>
           precedes a b (e_particles e)))"
proof -
  let ?d = "\<lambda>a. click_dist (e_mouse e) (e_heap e a)"
  let ?n = "nat \<lfloor>remove_quantity (modes (cfg_interactivity (e_config e)))\<rfloor>"
  let ?s = "sort_key ?d (e_particles e)"
  have after: "e_particles (handleClick e) = drop ?n ?s" and heap: "e_heap (handleClick e) = e_heap e"
    by (simp_all add: handleClick_remove [OF assms(1,2)])
  have ds: "distinct ?s" and ss: "set ?s = set (e_particles e)"
    using assms(3) by simp_all
  have split: "set (take ?n ?s) \<union> set (drop ?n ?s) = set ?s"
    by (simp flip: set_append)
  have disj: "set (take ?n ?s) \<inter> set (drop ?n ?s) = {}"
    using ds by (metis append_take_drop_id distinct_append)
  have removed: "set (e_particles e) - set (e_particles (handleClick e)) = set (take ?n ?s)"
    using split disj ss after by auto
  have "card (set (take ?n ?s)) = length (take ?n ?s)"
    using ds by (simp add: distinct_card)
  then have card: "card (set (e_particles e) - set (e_particles (handleClick e))) =
      min ?n (length (e_particles e))"
    using removed by (simp add: min.commute)
  have closest: "?d a \<le> ?d b \<and> (?d a = ?d b \<longrightarrow> precedes a b (e_particles e))"
    if a: "a \<in> set (take ?n ?s)" and b: "b \<in> set (drop ?n ?s)" for a b
  proof
    show "?d a \<le> ?d b"
      using take_drop_order [where f = ?d, OF sorted_sort_key a b] .
    show "?d a = ?d b \<longrightarrow> precedes a b (e_particles e)"
    proof
      assume eq: "?d a = ?d b"
      have "precedes a b (take ?n ?s @ drop ?n ?s)"
        using a b by (rule precedes_append)
      then have "precedes a b ?s"
        by simp
      then have "precedes a b (filter (\<lambda>y. ?d y = ?d a) ?s)"
        using eq by (simp add: precedes_filter)
      then have "precedes a b (filter (\<lambda>y. ?d y = ?d a) (e_particles e))"
        by (simp only: sort_key_stable)
      then show "precedes a b (e_particles e)"
        by (rule precedes_filterD)
    qed
  qed
  have sub: "set (e_particles (handleClick e)) \<subseteq> set (e_particles e)"
    using after ss by (metis set_drop_subset)
  have dist: "distinct (e_particles (handleClick e))"
    using after ds by simp
  have exact: "card (set (e_particles e) - set (e_particles (handleClick e))) = k"
    if "remove_quantity (modes (cfg_interactivity (e_config e))) = real k"
      and "k \<le> length (e_particles e)"
    using that card by simp
  from sub dist heap card exact closest show ?thesis
    unfolding removed unfolding after by blast
qed

lemma sample_sort:
  "sort_key (\<lambda>a. click_dist \<lparr>mouse_x = 3 / 2, mouse_y = 3 / 2, mouse_active = True\<rparr>
                (sample_heap a)) [0, 1, 2, 3] = [1, 2, 0, 3]"
  by (simp add: click_dist_def sample_heap_def particle_at_def Let_def)

lemma sample_click:
  "e_particles (handleClick (engine_with (remove_config q) sample_canvas
       \<lparr>mouse_x = 3 / 2, mouse_y = 3 / 2, mouse_active = True\<rparr> [0, 1, 2, 3] sample_heap))
   = drop (nat \<lfloor>q\<rfloor>) [1, 2, 0, 3]"
proof -
  have "e_particles (handleClick (engine_with (remove_config q) sample_canvas
       \<lparr>mouse_x = 3 / 2, mouse_y = 3 / 2, mouse_active = True\<rparr> [0, 1, 2, 3] sample_heap))
    = drop (nat \<lfloor>q\<rfloor>)
        (sort_key (\<lambda>a. click_dist \<lparr>mouse_x = 3 / 2, mouse_y = 3 / 2, mouse_active = True\<rparr>
                (sample_heap a)) [0, 1, 2, 3])"
    by (simp add: handleClick_def engine_with_def remove_config_def DEFAULTS_def Let_def
        del: sort_key_simps)
  then show ?thesis
    by (simp only: sample_sort)
qed

text \<open>
  Particles \<open>0\<close> to \<open>3\<close> at \<open>(0, 0)\<close>, \<open>(1, 1)\<close>, \<open>(2, 2)\<close> and \<open>(3, 3)\<close> and a click
  at \<open>(1.5, 1.5)\<close>: particles \<open>1\<close> and \<open>2\<close> are the closest, at equal distance. With
  quantity 2 both are removed; with quantity 1 only particle \<open>1\<close>, the earlier of the two.
\<close>

theorem remove_click_removes_closest_witness:
  "onclick_enable (onclick (events (cfg_interactivity (remove_config 2)))) \<and>
   onclick_mode (onclick (events (cfg_interactivity (remove_config 2)))) = Remove \<and>
   distinct [0, 1, 2, 3 :: nat] \<and>
   set [0, 1, 2, 3] - set (e_particles (handleClick (engine_with (remove_config 2) sample_canvas
       \<lparr>mouse_x = 3 / 2, mouse_y = 3 / 2, mouse_active = True\<rparr> [0, 1, 2, 3] sample_heap)))
     = {1, 2} \<and>
   card (set [0, 1, 2, 3 :: nat] - set (e_particles (handleClick (engine_with (remove_config 2)
       sample_canvas \<lparr>mouse_x = 3 / 2, mouse_y = 3 / 2, mouse_active = True\<rparr> [0, 1, 2, 3]
       sample_heap)))) = 2 \<and>
   set [0, 1, 2, 3] - set (e_particles (handleClick (engine_with (remove_config 1) sample_canvas
       \<lparr>mouse_x = 3 / 2, mouse_y = 3 / 2, mouse_active = True\<rparr> [0, 1, 2, 3] sample_heap)))
     = {1} \<and>
   precedes 1 2 [0, 1, 2, 3 :: nat]"
  using
    remove_click_removes_closest [where e = "engine_with (remove_config 2) sample_canvas
       \<lparr>mouse_x = 3 / 2, mouse_y = 3 / 2, mouse_active = True\<rparr> [0, 1, 2, 3] sample_heap"
      and k = 2]
    remove_click_removes_closest [where e = "engine_with (remove_config 1) sample_canvas
       \<lparr>mouse_x = 3 / 2, mouse_y = 3 / 2, mouse_active = True\<rparr> [0, 1, 2, 3] sample_heap"
      and k = 1]
  unfolding sample_click
  by (auto simp: engine_with_def remove_config_def DEFAULTS_def)

text \<open>
  C10. A click with click interaction enabled and mode remove replaces the particle
  array by the whole array sorted by ascending squared distance to the pointer, without
  its leading entries. The remaining particles are therefore in ascending distance
  order: of two remaining particles at different distances the closer one comes first
  after the click, also when it came second before the click.
\<close>

theorem remove_click_reorders:
  assumes "onclick_enable (onclick (events (cfg_interactivity (e_config e))))"
    and "onclick_mode (onclick (events (cfg_interactivity (e_config e)))) = Remove"
  shows
    "e_particles (handleClick e) =
       drop (nat \<lfloor>remove_quantity (modes (cfg_interactivity (e_config e)))\<rfloor>)
         (sort_key (\<lambda>a. click_dist (e_mouse e) (e_heap e a)) (e_particles e)) \<and>
     sorted (map (\<lambda>a. click_dist (e_mouse e) (e_heap e a)) (e_particles (handleClick e))) \<and>
     (\<forall>a \<in> set (e_particles (handleClick e)). \<forall>b \<in> set (e_particles (handleClick e)).
        click_dist (e_mouse e) (e_heap e b) < click_dist (e_mouse e) (e_heap e a) \<longrightarrow>
          precedes b a (e_particles (handleClick e)))"
proof -
  let ?d = "\<lambda>a. click_dist (e_mouse e) (e_heap e a)"
  let ?n = "nat \<lfloor>remove_quantity (modes (cfg_interactivity (e_config e)))\<rfloor>"
  have after: "e_particles (handleClick e) = drop ?n (sort_key ?d (e_particles e))"
    by (simp add: handleClick_remove [OF assms])
  have "sorted (map ?d (sort_key ?d (e_particles e)))"
    by (rule sorted_sort_key)
  then have s: "sorted (map ?d (e_particles (handleClick e)))"
    unfolding after by (simp add: sorted_wrt_drop flip: drop_map)
  from after s sorted_precedes [OF s] show ?thesis
    by blast
qed

text \<open>
  The same four particles and click with quantity 1: before the click particle \<open>0\<close>
  precedes particle \<open>2\<close>; after it the array is \<open>[2, 0, 3]\<close>.
\<close>

theorem remove_click_reorders_witness:
  "onclick_enable (onclick (events (cfg_interactivity (remove_config 1)))) \<and>
   onclick_mode (onclick (events (cfg_interactivity (remove_config 1)))) = Remove \<and>
   precedes 0 2 [0, 1, 2, 3 :: nat] \<and>
   e_particles (handleClick (engine_with (remove_config 1) sample_canvas
       \<lparr>mouse_x = 3 / 2, mouse_y = 3 / 2, mouse_active = True\<rparr> [0, 1, 2, 3] sample_heap))
     = [2, 0, 3] \<and>
   precedes 2 0 (e_particles (handleClick (engine_with (remove_config 1) sample_canvas
       \<lparr>mouse_x = 3 / 2, mouse_y = 3 / 2, mouse_active = True\<rparr> [0, 1, 2, 3] sample_heap)))"
proof -
  have cfg: "onclick_enable (onclick (events (cfg_interactivity (remove_config 1))))"
    "onclick_mode (onclick (events (cfg_interactivity (remove_config 1)))) = Remove"
    by (simp_all add: remove_config_def DEFAULTS_def)
  have e: "e_config (engine_with (remove_config 1) sample_canvas
       \<lparr>mouse_x = 3 / 2, mouse_y = 3 / 2, mouse_active = True\<rparr> [0, 1, 2, 3] sample_heap)
     = remove_config 1"
    by (simp add: engine_with_def)
  have after: "e_particles (handleClick (engine_with (remove_config 1) sample_canvas
       \<lparr>mouse_x = 3 / 2, mouse_y = 3 / 2, mouse_active = True\<rparr> [0, 1, 2, 3] sample_heap))
     = [2, 0, 3]"
    unfolding sample_click by simp
  have "sorted (map (\<lambda>a. click_dist (e_mouse (engine_with (remove_config 1) sample_canvas
       \<lparr>mouse_x = 3 / 2, mouse_y = 3 / 2, mouse_active = True\<rparr> [0, 1, 2, 3] sample_heap))
        (e_heap (engine_with (remove_config 1) sample_canvas
       \<lparr>mouse_x = 3 / 2, mouse_y = 3 / 2, mouse_active = True\<rparr> [0, 1, 2, 3] sample_heap) a))
     (e_particles (handleClick (engine_with (remove_config 1) sample_canvas
       \<lparr>mouse_x = 3 / 2, mouse_y = 3 / 2, mouse_active = True\<rparr> [0, 1, 2, 3] sample_heap))))"
    using remove_click_reorders [where e = "engine_with (remove_config 1) sample_canvas
       \<lparr>mouse_x = 3 / 2, mouse_y = 3 / 2, mouse_active = True\<rparr> [0, 1, 2, 3] sample_heap"]
      cfg
    unfolding e by blast
  with cfg after show ?thesis
    by simp
qed

section \<open>Properties of a full tick\<close>

subsection \<open>The animation steps\<close>

lemma handleSizeAnimation_bounds:
  assumes "size_anim_enable (size_anim (cfg_size cfg))"
  shows "radius (handleSizeAnimation cfg delta p) \<le> size_value (cfg_size cfg)"
    and "size_min (size_anim (cfg_size cfg)) \<le> size_value (cfg_size cfg) \<Longrightarrow>
         size_min (size_anim (cfg_size cfg)) \<le> radius (handleSizeAnimation cfg delta p)"
    and "0 \<le> size_value (cfg_size cfg) \<Longrightarrow> 0 \<le> radius (handleSizeAnimation cfg delta p)"
    and "initialRadius (handleSizeAnimation cfg delta p) = radius (handleSizeAnimation cfg delta p)"
  using assms by (simp_all add: handleSizeAnimation_def Let_def)

lemma handleOpacityAnimation_bounds:
  assumes "opacity_anim_enable (opacity_anim (cfg_opacity cfg))"
  shows "0 \<le> opacity (handleOpacityAnimation cfg delta p)"
    and "opacity (handleOpacityAnimation cfg delta p) \<le> 1"
    and "initialOpacity (handleOpacityAnimation cfg delta p) = opacity (handleOpacityAnimation cfg delta p)"
  using assms by (simp_all add: handleOpacityAnimation_def Let_def)

lemma update_radius_animated:
  assumes "size_anim_enable (size_anim (cfg_size cfg))"
  shows "radius (update cfg cv delta p) \<le> size_value (cfg_size cfg)"
    and "size_min (size_anim (cfg_size cfg)) \<le> size_value (cfg_size cfg) \<Longrightarrow>
         size_min (size_anim (cfg_size cfg)) \<le> radius (update cfg cv delta p)"
    and "0 \<le> size_value (cfg_size cfg) \<Longrightarrow> 0 \<le> radius (update cfg cv delta p)"
    and "initialRadius (update cfg cv delta p) = radius (update cfg cv delta p)"
  using assms by (simp_all add: update_def Let_def handleSizeAnimation_bounds)

lemma update_radius_static:
  assumes "\<not> size_anim_enable (size_anim (cfg_size cfg))"
  shows "radius (update cfg cv delta p) = radius p"
    and "initialRadius (update cfg cv delta p) = initialRadius p"
  using assms by (simp_all add: update_def Let_def)

lemma update_opacity_animated:
  assumes "opacity_anim_enable (opacity_anim (cfg_opacity cfg))"
  shows "0 \<le> opacity (update cfg cv delta p)"
    and "opacity (update cfg cv delta p) \<le> 1"
    and "initialOpacity (update cfg cv delta p) = opacity (update cfg cv delta p)"
  using assms by (simp_all add: update_def Let_def handleOpacityAnimation_bounds)

lemma update_opacity_static:
  assumes "\<not> opacity_anim_enable (opacity_anim (cfg_opacity cfg))"
  shows "opacity (update cfg cv delta p) = opacity p"
    and "initialOpacity (update cfg cv delta p) = initialOpacity p"
  using assms by (simp_all add: update_def Let_def)

lemma update_keeps_cached_radius:
  assumes "radius p = initialRadius p"
  shows "radius (update cfg cv delta p) = initialRadius (update cfg cv delta p)"
proof (cases "size_anim_enable (size_anim (cfg_size cfg))")
  case True
  then show ?thesis by (simp add: update_radius_animated(4))
next
  case False
  with assms show ?thesis by (simp add: update_radius_static)
qed

lemma update_keeps_cached_opacity:
  assumes "opacity p = initialOpacity p"
  shows "opacity (update cfg cv delta p) = initialOpacity (update cfg cv delta p)"
proof (cases "opacity_anim_enable (opacity_anim (cfg_opacity cfg))")
  case True
  then show ?thesis by (simp add: update_opacity_animated(3))
next
  case False
  with assms show ?thesis by (simp add: update_opacity_static)
qed

subsection \<open>The loops over the particle array\<close>



lemma update_particles_preserves:
  assumes "\<And>q. P q \<Longrightarrow> P (update cfg cv delta q)" and "P (h r)"
  shows "P (update_particles cfg cv delta ps h r)"
  using assms(2)
proof (induction ps arbitrary: h)
  case Nil
  then show ?case by simp
next
  case (Cons p ps)
  have "P ((h(p := update cfg cv delta (h p))) r)"
    using Cons.prems assms(1) by auto
  then show ?case
    by (simp add: Cons.IH)
qed

lemma reset_particles_eq:
  "reset_particles ps h = (\<lambda>r. if r \<in> set ps then reset_bubble (h r) else h r)"
proof (induction ps arbitrary: h)
  case Nil
  then show ?case by simp
next
  case (Cons p ps)
  show ?case
    by (rule ext) (simp add: Cons.IH reset_bubble_def)
qed

lemma attract_particles_keeps:
  "radius (attract_particles rotX rotY qt ps h r) = radius (h r) \<and>
   opacity (attract_particles rotX rotY qt ps h r) = opacity (h r) \<and>
   initialRadius (attract_particles rotX rotY qt ps h r) = initialRadius (h r) \<and>
   initialOpacity (attract_particles rotX rotY qt ps h r) = initialOpacity (h r)"
  by (induction ps arbitrary: h) (simp_all add: Let_def attract_neighbors_eq)

lemma applyAttraction_keeps [simp]:
  "radius (applyAttraction ps cfg qt h r) = radius (h r)"
  "opacity (applyAttraction ps cfg qt h r) = opacity (h r)"
  "initialRadius (applyAttraction ps cfg qt h r) = initialRadius (h r)"
  "initialOpacity (applyAttraction ps cfg qt h r) = initialOpacity (h r)"
  by (simp_all add: applyAttraction_def Let_def attract_particles_keeps)




lemma render_tick:
  assumes "\<not> firstFrame e"
  shows "e_heap (render ts e) =
     update_particles (e_config e) (e_canvas e)
       ((if ts - lastTimestamp e > 100 then 16.67 else ts - lastTimestamp e) / (1000 / 60))
       (e_particles e)
       (applyInteractions
          (build (e_heap e) (e_particles e)
             (Boundary 0 0 (canvas_width (e_canvas e)) (canvas_height (e_canvas e))))
          (e_mouse e) (e_config e) (e_particles e)
          (applyAttraction (e_particles e) (e_config e)
             (build (e_heap e) (e_particles e)
                (Boundary 0 0 (canvas_width (e_canvas e)) (canvas_height (e_canvas e))))
             (e_heap e)))"
  using assms by (simp add: render_def Let_def)

subsection \<open>Claims about a full tick\<close>

text \<open>
  C4. When the configured hover mode is bubble, \<open>applyInteractions\<close> first sets the
  radius and opacity of every particle of the array to the cached initial values, and
  only then looks at the pointer: with the pointer inactive or hover disabled the reset
  is all it does, otherwise the hover effect works on the reset store. Consequently,
  after a full tick with hover mode bubble and hover disabled (or the pointer inactive),
  the radius and opacity of every particle equal its cached initial radius and opacity.
\<close>

theorem bubble_reset_every_tick:
  assumes "onhover_mode (onhover (events (cfg_interactivity (e_config e)))) = Bubble"
  shows
    "reset_particles ps h =
       (\<lambda>r. if r \<in> set ps
            then (h r)\<lparr>radius := initialRadius (h r), opacity := initialOpacity (h r)\<rparr>
            else h r) \<and>
     applyInteractions qt m (e_config e) ps h =
       (if \<not> mouse_active m \<or> \<not> onhover_enable (onhover (events (cfg_interactivity (e_config e))))
        then reset_particles ps h
        else hover_neighbors Bubble (modes (cfg_interactivity (e_config e)))
               (mouse_x m) (mouse_y m)
               (bubble_distance (modes_bubble (modes (cfg_interactivity (e_config e)))))
               (query (reset_particles ps h)
                  (Boundary
                     (mouse_x m - bubble_distance (modes_bubble (modes (cfg_interactivity (e_config e)))))
                     (mouse_y m - bubble_distance (modes_bubble (modes (cfg_interactivity (e_config e)))))
                     (bubble_distance (modes_bubble (modes (cfg_interactivity (e_config e)))) * 2)
                     (bubble_distance (modes_bubble (modes (cfg_interactivity (e_config e)))) * 2))
                  qt [])
               (reset_particles ps h)) \<and>
     (\<not> firstFrame e \<and>
      (\<not> mouse_active (e_mouse e) \<or>
       \<not> onhover_enable (onhover (events (cfg_interactivity (e_config e))))) \<and>
      r \<in> set (e_particles e) \<longrightarrow>
        radius (e_heap (render ts e) r) = initialRadius (e_heap (render ts e) r) \<and>
        opacity (e_heap (render ts e) r) = initialOpacity (e_heap (render ts e) r))"
proof -
  have reset: "reset_particles ps h =
       (\<lambda>r. if r \<in> set ps
            then (h r)\<lparr>radius := initialRadius (h r), opacity := initialOpacity (h r)\<rparr>
            else h r)" for ps h
    unfolding reset_particles_eq reset_bubble_def by simp
  have inter: "applyInteractions qt m (e_config e) ps h =
       (if \<not> mouse_active m \<or> \<not> onhover_enable (onhover (events (cfg_interactivity (e_config e))))
        then reset_particles ps h
        else hover_neighbors Bubble (modes (cfg_interactivity (e_config e)))
               (mouse_x m) (mouse_y m)
               (bubble_distance (modes_bubble (modes (cfg_interactivity (e_config e)))))
               (query (reset_particles ps h)
                  (Boundary
                     (mouse_x m - bubble_distance (modes_bubble (modes (cfg_interactivity (e_config e)))))
                     (mouse_y m - bubble_distance (modes_bubble (modes (cfg_interactivity (e_config e)))))
                     (bubble_distance (modes_bubble (modes (cfg_interactivity (e_config e)))) * 2)
                     (bubble_distance (modes_bubble (modes (cfg_interactivity (e_config e)))) * 2))
                  qt [])
               (reset_particles ps h))" for qt m ps h
    using assms by (simp add: applyInteractions_def Let_def)
  have tick: "radius (e_heap (render ts e) r) = initialRadius (e_heap (render ts e) r) \<and>
        opacity (e_heap (render ts e) r) = initialOpacity (e_heap (render ts e) r)"
    if f: "\<not> firstFrame e"
      and off: "\<not> mouse_active (e_mouse e) \<or>
        \<not> onhover_enable (onhover (events (cfg_interactivity (e_config e))))"
      and r: "r \<in> set (e_particles e)"
  proof -
    let ?qt = "build (e_heap e) (e_particles e)
        (Boundary 0 0 (canvas_width (e_canvas e)) (canvas_height (e_canvas e)))"
    let ?h1 = "applyAttraction (e_particles e) (e_config e) ?qt (e_heap e)"
    let ?h2 = "applyInteractions ?qt (e_mouse e) (e_config e) (e_particles e) ?h1"
    have "?h2 = reset_particles (e_particles e) ?h1"
      using off by (simp only: inter if_P)
    then have "radius (?h2 r) = initialRadius (?h2 r) \<and> opacity (?h2 r) = initialOpacity (?h2 r)"
      using r by (simp add: reset)
    then show ?thesis
      unfolding render_tick [OF f]
      by (rule update_particles_preserves [rotated])
        (simp add: update_keeps_cached_radius update_keeps_cached_opacity)
  qed
  from reset inter tick show ?thesis
    by blast
qed

text \<open>
  Two inflated particles (radius 7, opacity 0.3, cached values 1), hover mode bubble with
  hover disabled: before the tick the radius differs from the cached value, after it
  they agree.
\<close>

theorem bubble_reset_every_tick_witness:
  "onhover_mode (onhover (events (cfg_interactivity (bubble_config False)))) = Bubble \<and>
   \<not> onhover_enable (onhover (events (cfg_interactivity (bubble_config False)))) \<and>
   radius (inflated_heap 1) = 7 \<and> initialRadius (inflated_heap 1) = 1 \<and>
   radius (reset_particles [0, 1] inflated_heap 1) = 1 \<and>
   opacity (reset_particles [0, 1] inflated_heap 1) = 1 \<and>
   radius (e_heap (render 16
       (engine_with (bubble_config False) sample_canvas idle_mouse [0, 1] inflated_heap)) 1) =
     initialRadius (e_heap (render 16
       (engine_with (bubble_config False) sample_canvas idle_mouse [0, 1] inflated_heap)) 1) \<and>
   opacity (e_heap (render 16
       (engine_with (bubble_config False) sample_canvas idle_mouse [0, 1] inflated_heap)) 1) =
     initialOpacity (e_heap (render 16
       (engine_with (bubble_config False) sample_canvas idle_mouse [0, 1] inflated_heap)) 1)"
proof -
  let ?e = "engine_with (bubble_config False) sample_canvas idle_mouse [0, 1] inflated_heap"
  have cfg: "onhover_mode (onhover (events (cfg_interactivity (e_config ?e)))) = Bubble"
    "\<not> onhover_enable (onhover (events (cfg_interactivity (e_config ?e))))"
    "\<not> firstFrame ?e" "1 \<in> set (e_particles ?e)"
    by (simp_all add: engine_with_def bubble_config_def DEFAULTS_def)
  note inst = bubble_reset_every_tick [OF cfg(1), where ps = "[0, 1]" and h = inflated_heap
      and r = 1 and ts = 16]
  have "radius (reset_particles [0, 1] inflated_heap 1) = 1 \<and>
      opacity (reset_particles [0, 1] inflated_heap 1) = 1"
    using inst by (simp add: inflated_heap_def particle_at_def)
  moreover have "radius (e_heap (render 16 ?e) 1) = initialRadius (e_heap (render 16 ?e) 1) \<and>
      opacity (e_heap (render 16 ?e) 1) = initialOpacity (e_heap (render 16 ?e) 1)"
    using inst cfg by blast
  moreover have "radius (inflated_heap 1) = 7 \<and> initialRadius (inflated_heap 1) = 1"
    by (simp add: inflated_heap_def particle_at_def)
  ultimately show ?thesis
    using cfg by (simp add: engine_with_def)
qed







end
